theory Spec2Isabelle
  imports Main "HOL-Library.AList" "HOL-Library.Char_ord" "HOL-Library.List_Lexorder"
begin

section \<open>Python values, dictionaries and exceptions\<close>

text \<open>
  The values that can sit in a field of a row.  JSON gives strings, integers, booleans
  and null; the CSV reader gives strings and \<open>None\<close> (the \<open>restval\<close> of a short row);
  the query engine gives strings, integers and \<open>None\<close>.  \<open>print_table\<close> only asks of a
  value whether it is \<open>None\<close>, whether its type is \<open>str\<close>, and for the text of
  \<open>str(value)\<close>; a value of any other type (a float, a nested list or object, bytes) is
  therefore \<open>POther s\<close>, with \<open>s\<close> the text that \<open>str\<close> gives for it.  A string is the list
  of its characters, so \<open>length\<close> is \<open>len\<close> and the order of \<open>HOL-Library.List_Lexorder\<close> over
  \<open>HOL-Library.Char_ord\<close> is the order in which Python compares and sorts strings.
\<close>

datatype pyval = PNone | PStr string | PInt int | PBool bool | POther string

datatype error =
    OSError | JSONDecodeError | CsvError | SqliteError
  | TypeError | AttributeError | ValueError | IndexError

text \<open>
  A \<open>dict\<close> is an association list in insertion order with pairwise different keys;
  \<open>d[k] = v\<close> is \<open>AList.update k v d\<close> (the key keeps its place, a new key goes last) and
  \<open>d.get(k, default)\<close> is \<open>dict_get\<close>.  A row is a \<open>dict\<close> from column names to values.
\<close>

type_synonym row = "(string \<times> pyval) list"

definition dict_get :: "('k \<times> 'v) list \<Rightarrow> 'k \<Rightarrow> 'v \<Rightarrow> 'v" where
  "dict_get d k dflt = (case map_of d k of None \<Rightarrow> dflt | Some v \<Rightarrow> v)"

text \<open>\<open>dict(pairs)\<close> and \<open>OrderedDict(pairs)\<close>: a later pair overwrites an earlier one of the
  same key, which keeps its first position.\<close>

definition py_dict :: "('k \<times> 'v) list \<Rightarrow> ('k \<times> 'v) list" where
  "py_dict pairs = fold (\<lambda>(k, v) d. AList.update k v d) pairs []"

subsection \<open>\<open>str\<close>, \<open>len\<close> and slices\<close>

definition digit_char :: "nat \<Rightarrow> char" where
  "digit_char d = char_of (48 + d)"

function str_nat :: "nat \<Rightarrow> string" where
  "str_nat n = (if n < 10 then [digit_char n] else str_nat (n div 10) @ [digit_char (n mod 10)])"
  by pat_completeness auto
termination
  by (relation "measure (\<lambda>n. n)") auto

declare str_nat.simps [simp del]

definition str_int :: "int \<Rightarrow> string" where
  "str_int i = (if i < 0 then CHR ''-'' # str_nat (nat (- i)) else str_nat (nat i))"

fun str_py :: "pyval \<Rightarrow> string" where
  "str_py PNone = ''None''"
| "str_py (PStr s) = s"
| "str_py (PInt i) = str_int i"
| "str_py (PBool b) = (if b then ''True'' else ''False'')"
| "str_py (POther s) = s"

definition len :: "'a list \<Rightarrow> int" where
  "len xs = int (length xs)"

text \<open>\<open>s[:n]\<close>: the first \<open>n\<close> characters, and for a negative \<open>n\<close> all but the last \<open>-n\<close>.\<close>

definition slice_to :: "'a list \<Rightarrow> int \<Rightarrow> 'a list" where
  "slice_to s n = (if 0 \<le> n then take (nat n) s else take (length s - nat (- n)) s)"

text \<open>\<open>c * n\<close> for a one-character string \<open>c\<close>: empty when \<open>n\<close> is negative.\<close>

definition str_times :: "char \<Rightarrow> int \<Rightarrow> string" where
  "str_times c n = replicate (nat n) c"

section \<open>Format templates\<close>

text \<open>
  \<open>print_table\<close> builds its row template from the pieces \<open>{:<w}\<close>, one per column, joined
  by the separator, and fills it with \<open>str.format\<close>.  A template is kept as the list of
  its pieces: literal text, and replacement fields \<open>{:<w}\<close> or \<open>{:^w}\<close> with the width as
  the integer that was printed into them.  The separator is taken as literal text, which
  it is when it holds no brace (\<open>plain_text\<close>); \<open>main\<close> always passes \<open>' | '\<close>.
\<close>

datatype align = AlignLeft | AlignCenter

datatype piece = Text string | Slot align int

definition plain_text :: "string \<Rightarrow> bool" where
  "plain_text s = (CHR ''{'' \<notin> set s \<and> CHR ''}'' \<notin> set s)"

text \<open>\<open>'{{:<{}}}'.format(w)\<close>\<close>

definition value_format :: "int \<Rightarrow> piece" where
  "value_format w = Slot AlignLeft w"

text \<open>\<open>sep.join(value_formats)\<close>\<close>

fun join_pieces :: "string \<Rightarrow> piece list \<Rightarrow> piece list" where
  "join_pieces sep [] = []"
| "join_pieces sep [p] = [p]"
| "join_pieces sep (p # q # ps) = p # Text sep # join_pieces sep (q # ps)"

text \<open>\<open>template.replace('<', '^')\<close>: every \<open><\<close> of the template text becomes \<open>^\<close>, the one
  in each replacement field and any in the separator.\<close>

definition replace_char :: "char \<Rightarrow> char \<Rightarrow> string \<Rightarrow> string" where
  "replace_char a b s = map (\<lambda>c. if c = a then b else c) s"

fun replace_lt :: "piece \<Rightarrow> piece" where
  "replace_lt (Text s) = Text (replace_char (CHR ''<'') (CHR ''^'') s)"
| "replace_lt (Slot a w) = Slot AlignCenter w"

text \<open>
  Formatting a string with the specification \<open><w\<close> or \<open>^w\<close>.  A width printed from a
  negative integer starts with a sign, which a string specification refuses
  (\<open>ValueError\<close>).  Centring puts the smaller half of the padding on the left.
\<close>

fun pad :: "align \<Rightarrow> nat \<Rightarrow> string \<Rightarrow> string" where
  "pad AlignLeft w s = s @ replicate (w - length s) (CHR '' '')"
| "pad AlignCenter w s =
     (let total = w - length s; left = total div 2
      in replicate left (CHR '' '') @ s @ replicate (total - left) (CHR '' ''))"

declare pad.simps [simp del]

definition format_spec :: "align \<Rightarrow> int \<Rightarrow> string \<Rightarrow> error + string" where
  "format_spec a w s = (if w < 0 then Inl ValueError else Inr (pad a (nat w) s))"

text \<open>\<open>template.format(*args)\<close>: the fields take the arguments in order.\<close>

fun py_format :: "piece list \<Rightarrow> string list \<Rightarrow> error + string" where
  "py_format [] args = Inr []"
| "py_format (Text s # ps) args =
     (case py_format ps args of Inl e \<Rightarrow> Inl e | Inr rest \<Rightarrow> Inr (s @ rest))"
| "py_format (Slot a w # ps) [] = Inl IndexError"
| "py_format (Slot a w # ps) (x # xs) =
     (case format_spec a w x of
        Inl e \<Rightarrow> Inl e
      | Inr cell \<Rightarrow>
          (case py_format ps xs of Inl e \<Rightarrow> Inl e | Inr rest \<Rightarrow> Inr (cell @ rest)))"

section \<open>The renderer: \<open>_extract_value\<close> and \<open>print_table\<close>\<close>

definition extract_value :: "row \<Rightarrow> string \<Rightarrow> int \<Rightarrow> pyval \<Rightarrow> string" where
  "extract_value source key max_size dflt =
     (let value = dict_get source key dflt;
          value = (if value = PNone then dflt else value);
          text = (case value of PStr s \<Rightarrow> s | _ \<Rightarrow> str_py value)
      in slice_to text max_size)"

text \<open>
  The column sizes of \<open>print_table\<close>: the lengths of the labels first, then one pass over
  the entries raising each field's size to the length of \<open>str(entry.get(field, ''))\<close>,
  then the cap at \<open>max_cols\<close>.  A label is a string (\<open>main\<close> passes the column name, and
  the header's \<open>h[:max_cols]\<close> and \<open>format\<close> need one), so \<open>str(label)\<close> is the label.  The
  lookup \<open>col_sizes[field]\<close> finds every field of the table (\<open>col_sizes_keys\<close> below).
\<close>

definition label_sizes :: "(string \<times> string) list \<Rightarrow> (string \<times> int) list" where
  "label_sizes fields = map (\<lambda>(field, label). (field, len label)) fields"

definition grow_size :: "row \<Rightarrow> string \<Rightarrow> (string \<times> int) list \<Rightarrow> (string \<times> int) list" where
  "grow_size entry field col_sizes =
     (let current_max = dict_get col_sizes field 0
      in AList.update field
           (max current_max (len (str_py (dict_get entry field (PStr ''''))))) col_sizes)"

definition grow_sizes ::
  "string list \<Rightarrow> row \<Rightarrow> (string \<times> int) list \<Rightarrow> (string \<times> int) list" where
  "grow_sizes names entry col_sizes = fold (grow_size entry) names col_sizes"

definition cap_sizes :: "int \<Rightarrow> (string \<times> int) list \<Rightarrow> (string \<times> int) list" where
  "cap_sizes max_cols col_sizes = map (\<lambda>(field, size). (field, min size max_cols)) col_sizes"

definition col_sizes :: "row list \<Rightarrow> (string \<times> string) list \<Rightarrow> int \<Rightarrow> (string \<times> int) list" where
  "col_sizes entries fields max_cols =
     cap_sizes max_cols (fold (grow_sizes (map fst fields)) entries (label_sizes fields))"

definition table_width :: "(string \<times> int) list \<Rightarrow> (string \<times> string) list \<Rightarrow> string \<Rightarrow> int" where
  "table_width sizes fields sep =
     (let number_of_seps = len fields - 1
      in sum_list (map snd sizes) + number_of_seps * len sep)"

definition row_template :: "(string \<times> int) list \<Rightarrow> (string \<times> string) list \<Rightarrow> string \<Rightarrow> piece list" where
  "row_template sizes fields sep =
     join_pieces sep (map (\<lambda>field. value_format (dict_get sizes field 0)) (map fst fields))"

text \<open>The lines printed so far, and the exception that ended the printing, if one did.\<close>

type_synonym printed = "string list \<times> error option"

fun print_entries :: "piece list \<Rightarrow> string list \<Rightarrow> int \<Rightarrow> row list \<Rightarrow> string list \<Rightarrow> printed" where
  "print_entries template names max_cols [] out = (out, None)"
| "print_entries template names max_cols (entry # entries) out =
     (let values = map (\<lambda>field. extract_value entry field max_cols (PStr '''')) names
      in case py_format template values of
           Inl e \<Rightarrow> (out, Some e)
         | Inr line \<Rightarrow> print_entries template names max_cols entries (out @ [line]))"

definition print_table :: "row list \<Rightarrow> (string \<times> string) list \<Rightarrow> int \<Rightarrow> string \<Rightarrow> printed" where
  "print_table entries fields0 max_cols sep =
     (let fields = py_dict fields0;
          sizes = col_sizes entries fields max_cols;
          width = table_width sizes fields sep;
          template = row_template sizes fields sep;
          truncated_headers = map (\<lambda>h. slice_to h max_cols) (map snd fields)
      in case py_format (map replace_lt template) truncated_headers of
           Inl e \<Rightarrow> ([], Some e)
         | Inr header \<Rightarrow>
             print_entries template (map fst fields) max_cols entries
               [header, str_times (CHR ''-'') width])"

text \<open>\<open>len(str(entry.get(field, '')))\<close>, the length that an entry contributes to a column.\<close>

definition value_len :: "row \<Rightarrow> string \<Rightarrow> int" where
  "value_len entry field = len (str_py (dict_get entry field (PStr '''')))"

text \<open>What \<open>print_table\<close> reads and prints, named for the statements below:
  \<open>col_sizes[field]\<close>, the width handed to the rule line, and \<open>sep.join\<close> on strings.\<close>

definition col_width :: "row list \<Rightarrow> (string \<times> string) list \<Rightarrow> int \<Rightarrow> string \<Rightarrow> int" where
  "col_width entries fields max_cols field =
     dict_get (col_sizes entries (py_dict fields) max_cols) field 0"

definition rule_width :: "row list \<Rightarrow> (string \<times> string) list \<Rightarrow> int \<Rightarrow> string \<Rightarrow> int" where
  "rule_width entries fields max_cols sep =
     table_width (col_sizes entries (py_dict fields) max_cols) (py_dict fields) sep"

fun join :: "string \<Rightarrow> string list \<Rightarrow> string" where
  "join sep [] = []"
| "join sep [x] = x"
| "join sep (x # y # ys) = x @ sep @ join sep (y # ys)"

section \<open>The printed lines, cell by cell\<close>

text \<open>
  The cells that the two templates produce: the header's label cut to \<open>max_cols\<close> and
  formatted with \<open>^\<close>, an entry's extracted value formatted with \<open><\<close>, both to the
  column's size.  \<open>print_table_rendered\<close> below shows that these are the lines printed.
\<close>

definition header_cell :: "row list \<Rightarrow> (string \<times> string) list \<Rightarrow> int \<Rightarrow> string \<times> string \<Rightarrow> string" where
  "header_cell entries fields max_cols p =
     pad AlignCenter (nat (col_width entries fields max_cols (fst p))) (slice_to (snd p) max_cols)"

definition entry_cell :: "row list \<Rightarrow> (string \<times> string) list \<Rightarrow> int \<Rightarrow> row \<Rightarrow> string \<Rightarrow> string" where
  "entry_cell entries fields max_cols entry field =
     pad AlignLeft (nat (col_width entries fields max_cols field))
       (extract_value entry field max_cols (PStr ''''))"

definition header_line :: "row list \<Rightarrow> (string \<times> string) list \<Rightarrow> int \<Rightarrow> string \<Rightarrow> string" where
  "header_line entries fields max_cols sep =
     join (replace_char (CHR ''<'') (CHR ''^'') sep)
       (map (header_cell entries fields max_cols) (py_dict fields))"

definition entry_line :: "row list \<Rightarrow> (string \<times> string) list \<Rightarrow> int \<Rightarrow> string \<Rightarrow> row \<Rightarrow> string" where
  "entry_line entries fields max_cols sep entry =
     join sep (map (entry_cell entries fields max_cols entry) (map fst (py_dict fields)))"

section \<open>The parser: \<open>parse_data\<close>\<close>

text \<open>
  What \<open>json.loads\<close> returns, as far as \<open>parse_data\<close> looks into it: a list, an object
  (a \<open>dict\<close> with string keys) or a scalar.  The values inside an object are field values
  (\<open>pyval\<close>).
\<close>

datatype pyobj = Scalar pyval | Dict row | List "pyobj list"

text \<open>
  The program's surroundings: the standard input, the file system, and the library
  functions that the repository calls but does not contain.  \<open>json_loads\<close> is
  \<open>json.loads\<close>; \<open>csv_reader\<close> gives the records that \<open>csv.reader\<close> reads from the text
  with the dialect \<open>CustomCSVDialect\<close>; \<open>Inl\<close> is the exception raised.  The query engine
  is \<open>sqlite3\<close> on a fresh in-memory database: the outcome of a statement depends on the
  statements run before it on the same connection.
\<close>

datatype db_op = Execute string | ExecuteMany string "pyval list list" | Commit

record world =
  stdin_read :: "error + string"
  open_read :: "string \<Rightarrow> error + string"
  json_loads :: "string \<Rightarrow> error + pyobj"
  csv_reader :: "string \<Rightarrow> error + string list list"
  sql_execute :: "db_op list \<Rightarrow> string \<Rightarrow> error + (string list option \<times> pyval list list)"
  sql_executemany :: "db_op list \<Rightarrow> string \<Rightarrow> pyval list list \<Rightarrow> error option"

definition read_source :: "world \<Rightarrow> string \<Rightarrow> error + string" where
  "read_source w source = (if source = ''-'' then stdin_read w else open_read w source)"

text \<open>\<open>for row in data\<close>: a list gives its elements, a \<open>dict\<close> its keys, a string its
  characters; nothing else that \<open>json.loads\<close> returns can be iterated.\<close>

fun iter_py :: "pyobj \<Rightarrow> error + pyobj list" where
  "iter_py (List items) = Inr items"
| "iter_py (Dict d) = Inr (map (\<lambda>(k, v). Scalar (PStr k)) d)"
| "iter_py (Scalar (PStr s)) = Inr (map (\<lambda>c. Scalar (PStr [c])) s)"
| "iter_py (Scalar v) = Inl TypeError"

text \<open>\<open>row.keys()\<close>: only a \<open>dict\<close> has the method.\<close>

fun keys_py :: "pyobj \<Rightarrow> error + string list" where
  "keys_py (Dict d) = Inr (map fst d)"
| "keys_py other = Inl AttributeError"

fun update_cols :: "string set \<Rightarrow> pyobj list \<Rightarrow> error + string set" where
  "update_cols cols [] = Inr cols"
| "update_cols cols (item # items) =
     (case keys_py item of
        Inl e \<Rightarrow> Inl e
      | Inr ks \<Rightarrow> update_cols (cols \<union> set ks) items)"

text \<open>The entries that the later stages find when they iterate \<open>data\<close>: once the loop over
  the keys has passed, each of them is a \<open>dict\<close>.\<close>

fun rows_of :: "pyobj list \<Rightarrow> row list" where
  "rows_of [] = []"
| "rows_of (Dict d # items) = d # rows_of items"
| "rows_of (other # items) = rows_of items"

definition json_attempt :: "world \<Rightarrow> string \<Rightarrow> error + (string list \<times> row list)" where
  "json_attempt w content =
     (case json_loads w content of
        Inl e \<Rightarrow> Inl e
      | Inr data \<Rightarrow>
          (case iter_py data of
             Inl e \<Rightarrow> Inl e
           | Inr items \<Rightarrow>
               (case update_cols {} items of
                  Inl e \<Rightarrow> Inl e
                | Inr cols \<Rightarrow> Inr (sorted_list_of_set cols, rows_of items))))"

text \<open>
  \<open>csv.DictReader\<close>: the first record gives the field names (\<open>None\<close> when there is no
  record at all); every later record that is not empty becomes a row, a short one filled
  up with \<open>None\<close>.  The fields of a long record beyond the field names go under the key
  \<open>None\<close>, which no column name can be, and are left out here.
\<close>

definition dict_row :: "string list \<Rightarrow> string list \<Rightarrow> row" where
  "dict_row fieldnames record =
     fold (\<lambda>key d. AList.update key PNone d) (drop (length record) fieldnames)
       (py_dict (zip fieldnames (map PStr record)))"

definition csv_attempt :: "world \<Rightarrow> string \<Rightarrow> error + (string list option \<times> row list)" where
  "csv_attempt w content =
     (case csv_reader w content of
        Inl e \<Rightarrow> Inl e
      | Inr [] \<Rightarrow> Inr (None, [])
      | Inr (fieldnames # records) \<Rightarrow>
          Inr (Some fieldnames, map (dict_row fieldnames) (filter (\<lambda>r. r \<noteq> []) records)))"

definition parse_content :: "world \<Rightarrow> string \<Rightarrow> error + (string list option \<times> row list)" where
  "parse_content w content =
     (case json_attempt w content of
        Inr (cols, data) \<Rightarrow> Inr (Some cols, data)
      | Inl e \<Rightarrow> csv_attempt w content)"

definition parse_data :: "world \<Rightarrow> string \<Rightarrow> error + (string list option \<times> row list)" where
  "parse_data w source =
     (case read_source w source of
        Inl e \<Rightarrow> Inl e
      | Inr content \<Rightarrow> parse_content w content)"

section \<open>The query step: \<open>TempDB\<close>\<close>

text \<open>
  A connection is the list of statements run on it so far and whether it has been
  closed.  A \<open>TempDB\<close> holds the records, the columns (\<open>None\<close> when the parser found no
  header) and, once entered, its connection.
\<close>

record connection =
  history :: "db_op list"
  closed :: bool

record tempdb =
  records :: "row list"
  columns :: "string list option"
  db :: "connection option"

definition TABLE_NAME :: string where
  "TABLE_NAME = ''data''"

definition escape :: "string \<Rightarrow> string" where
  "escape v = CHR 0x22 # filter (\<lambda>c. c \<noteq> CHR 0x22) v @ [CHR 0x22]"

definition create_table_statement :: "string list \<Rightarrow> string" where
  "create_table_statement cols =
     (let field_definitions = map (\<lambda>f. escape f @ '' TEXT'') cols;
          field_list = join '', '' field_definitions
      in ''\<newline>            CREATE TABLE '' @ TABLE_NAME @ '' (\<newline>                ''
           @ field_list @ ''\<newline>            );\<newline>        '')"

definition insert_statement :: "string list \<Rightarrow> string" where
  "insert_statement cols =
     (let col_list = map escape cols;
          param_list = map (\<lambda>c. ''?'') cols
      in ''\<newline>            INSERT INTO '' @ [CHR 0x22] @ TABLE_NAME @ [CHR 0x22] @ '' (''
           @ join '', '' col_list @ '')\<newline>            VALUES (\<newline>                ''
           @ join '', '' param_list @ ''\<newline>            )\<newline>        '')"

text \<open>The connection of an entered \<open>TempDB\<close>; the methods below run only after
  \<open>__enter__\<close> has connected.\<close>

definition conn_of :: "tempdb \<Rightarrow> connection" where
  "conn_of t = (case db t of Some c \<Rightarrow> c | None \<Rightarrow> \<lparr>history = [], closed = False\<rparr>)"

definition ran :: "db_op list \<Rightarrow> tempdb \<Rightarrow> tempdb" where
  "ran ops t = t\<lparr>db := Some ((conn_of t)\<lparr>history := history (conn_of t) @ ops\<rparr>)\<rparr>"

definition make_table :: "world \<Rightarrow> tempdb \<Rightarrow> tempdb \<times> error option" where
  "make_table w t =
     (case columns t of
        None \<Rightarrow> (t, Some TypeError)
      | Some cols \<Rightarrow>
          (let statement = create_table_statement cols
           in case sql_execute w (history (conn_of t)) statement of
                Inl e \<Rightarrow> (t, Some e)
              | Inr r \<Rightarrow> (ran [Execute statement, Commit] t, None)))"

definition insert_data :: "world \<Rightarrow> tempdb \<Rightarrow> tempdb \<times> error option" where
  "insert_data w t =
     (case columns t of
        None \<Rightarrow> (t, Some TypeError)
      | Some cols \<Rightarrow>
          (let statement = insert_statement cols;
               flattened_rows = map (\<lambda>row. map (\<lambda>c. dict_get row c PNone) cols) (records t)
           in case sql_executemany w (history (conn_of t)) statement flattened_rows of
                Some e \<Rightarrow> (t, Some e)
              | None \<Rightarrow> (ran [ExecuteMany statement flattened_rows, Commit] t, None)))"

text \<open>\<open>__enter__\<close>: connect, create the table, insert the records.\<close>

definition enter :: "world \<Rightarrow> tempdb \<Rightarrow> tempdb \<times> error option" where
  "enter w t0 =
     (let t = t0\<lparr>db := Some \<lparr>history = [], closed = False\<rparr>\<rparr>
      in case make_table w t of
           (t1, Some e) \<Rightarrow> (t1, Some e)
         | (t1, None) \<Rightarrow> insert_data w t1)"

text \<open>\<open>__exit__\<close>: close the connection; the exception, if any, goes on.\<close>

definition exit_db :: "tempdb \<Rightarrow> tempdb" where
  "exit_db t = t\<lparr>db := Some ((conn_of t)\<lparr>closed := True\<rparr>)\<rparr>"

text \<open>\<open>row_factory\<close>: a result record as a \<open>dict\<close> keyed by the names of the description.\<close>

definition row_factory :: "string list \<Rightarrow> pyval list \<Rightarrow> row" where
  "row_factory description r = py_dict (zip description r)"

text \<open>\<open>query\<close>: run the statement, fetch every record, read the column names off the
  description, which is \<open>None\<close> for a statement that returns no records.\<close>

definition run_query ::
  "world \<Rightarrow> tempdb \<Rightarrow> string \<Rightarrow> tempdb \<times> (error + (string list \<times> row list))" where
  "run_query w t statement =
     (case sql_execute w (history (conn_of t)) statement of
        Inl e \<Rightarrow> (t, Inl e)
      | Inr (description, fetched) \<Rightarrow>
          (let t1 = ran [Execute statement] t
           in case description of
                None \<Rightarrow> (t1, Inl TypeError)
              | Some names \<Rightarrow> (t1, Inr (names, map (row_factory names) fetched))))"

text \<open>\<open>with db: cols, data = db.query(...)\<close>: \<open>__exit__\<close> runs when the body ends, with
  or without an exception, and only when \<open>__enter__\<close> has returned.\<close>

definition with_db ::
  "world \<Rightarrow> tempdb \<Rightarrow> string \<Rightarrow> tempdb \<times> (error + (string list \<times> row list))" where
  "with_db w t statement =
     (case enter w t of
        (t1, Some e) \<Rightarrow> (t1, Inl e)
      | (t1, None) \<Rightarrow>
          (case run_query w t1 statement of
             (t2, result) \<Rightarrow> (exit_db t2, result)))"

text \<open>An entered \<open>TempDB\<close> whose connection has not been closed.\<close>

definition connected :: "tempdb \<Rightarrow> bool" where
  "connected t = (map_option closed (db t) = Some False)"

section \<open>The driver: \<open>main\<close>\<close>

text \<open>The parsed command line: \<open>only_columns\<close> is \<open>None\<close> without \<open>-o\<close> and the list of
  names (possibly empty) with it; \<open>query\<close> is \<open>None\<close> without \<open>-q\<close>.\<close>

record args =
  arg_data_source :: string
  arg_max_cols :: int
  arg_only_columns :: "string list option"
  arg_query :: "string option"

text \<open>What a run leaves: the lines on standard output, the exception that ended it, if
  one did, and the connection of the query step, if there was one.\<close>

record run =
  stdout :: "string list"
  raised :: "error option"
  store :: "connection option"

text \<open>\<open>if args.only_columns: cols = args.only_columns\<close>\<close>

definition choose_columns :: "args \<Rightarrow> string list option \<Rightarrow> string list option" where
  "choose_columns a cols =
     (case arg_only_columns a of
        Some (c # cs) \<Rightarrow> Some (c # cs)
      | _ \<Rightarrow> cols)"

text \<open>The call of \<open>print_table\<close>; the comprehension over \<open>cols\<close> raises when \<open>cols\<close> is
  \<open>None\<close>.\<close>

definition render :: "args \<Rightarrow> string list option \<Rightarrow> row list \<Rightarrow> connection option \<Rightarrow> run" where
  "render a cols data conn =
     (case cols of
        None \<Rightarrow> \<lparr>stdout = [], raised = Some TypeError, store = conn\<rparr>
      | Some cs \<Rightarrow>
          (case print_table data (map (\<lambda>col. (col, col)) cs) (arg_max_cols a) '' | '' of
             (out, err) \<Rightarrow> \<lparr>stdout = out, raised = err, store = conn\<rparr>))"

text \<open>\<open>if args.query:\<close> holds for a query that is neither absent nor empty.\<close>

definition query_step :: "world \<Rightarrow> args \<Rightarrow> string list option \<Rightarrow> row list \<Rightarrow> run" where
  "query_step w a cols data =
     (case arg_query a of
        Some (c # cs) \<Rightarrow>
          (case with_db w \<lparr>records = data, columns = cols, db = None\<rparr> (c # cs) of
             (t, Inl e) \<Rightarrow> \<lparr>stdout = [], raised = Some e, store = db t\<rparr>
           | (t, Inr (cols', data')) \<Rightarrow> render a (Some cols') data' (db t))
      | _ \<Rightarrow> render a cols data None)"

definition main :: "world \<Rightarrow> args \<Rightarrow> run" where
  "main w a =
     (case parse_data w (arg_data_source a) of
        Inl e \<Rightarrow> \<lparr>stdout = [], raised = Some e, store = None\<rparr>
      | Inr (cols, data) \<Rightarrow> query_step w a (choose_columns a cols) data)"

section \<open>A world for the examples\<close>

text \<open>
  Standard input holds \<open>text\<close>; \<open>json.loads\<close> gives \<open>parsed\<close> for it and the CSV reader
  the records \<open>csv_records\<close>; there are no files.  The engine refuses a table without
  columns (\<open>CREATE TABLE data ( )\<close> is a syntax error), accepts every other table and every
  insertion, and answers the query with \<open>answer\<close>.
\<close>

definition example_world ::
  "string \<Rightarrow> error + pyobj \<Rightarrow> string list list \<Rightarrow>
   error + (string list option \<times> pyval list list) \<Rightarrow> world" where
  "example_world text parsed csv_records answer =
     \<lparr>stdin_read = Inr text,
      open_read = (\<lambda>path. Inl OSError),
      json_loads = (\<lambda>s. if s = text then parsed else Inl JSONDecodeError),
      csv_reader = (\<lambda>s. if s = text then Inr csv_records else Inr []),
      sql_execute = (\<lambda>hist statement.
        if hist = [] then
          (if statement = create_table_statement [] then Inl SqliteError else Inr (None, []))
        else answer),
      sql_executemany = (\<lambda>hist statement rows. None)\<rparr>"

definition example_args :: "string list option \<Rightarrow> string option \<Rightarrow> args" where
  "example_args only q =
     \<lparr>arg_data_source = ''-'', arg_max_cols = 100, arg_only_columns = only, arg_query = q\<rparr>"

section \<open>Properties of the renderer\<close>

lemma fold_update_keys: "fst ` set (fold (\<lambda>(k, v) d. AList.update k v d) ps d) = fst ` set d \<union> fst ` set ps"
proof (induction ps arbitrary: d)
  case Nil
  then show ?case by simp
next
  case (Cons p ps)
  obtain k v where p: "p = (k, v)" by (cases p)
  have "fst ` set (AList.update k v d) = insert k (fst ` set d)"
    by (simp add: dom_update)
  with Cons.IH [of "AList.update k v d"] p show ?case by auto
qed

lemma fold_update_distinct:
  "distinct (map fst d) \<Longrightarrow> distinct (map fst (fold (\<lambda>(k, v) d. AList.update k v d) ps d))"
  by (induction ps arbitrary: d) (auto simp: distinct_update)

lemma py_dict_keys: "fst ` set (py_dict ps) = fst ` set ps"
  by (simp add: py_dict_def fold_update_keys)

lemma py_dict_distinct: "distinct (map fst (py_dict ps))"
  by (simp add: py_dict_def fold_update_distinct)

lemma py_dict_empty: "py_dict ps = [] \<longleftrightarrow> ps = []"
  using py_dict_keys [of ps] by (cases ps) auto

lemma grow_size_keys:
  "field \<in> fst ` set cs \<Longrightarrow> map fst (grow_size entry field cs) = map fst cs"
  by (simp add: grow_size_def update_keys Let_def)

lemma grow_size_lookup:
  "map_of (grow_size entry field cs) =
     (map_of cs)(field \<mapsto> max (dict_get cs field 0) (value_len entry field))"
  by (simp add: grow_size_def update_conv' Let_def value_len_def)

lemma grow_sizes_keys:
  "set names \<subseteq> fst ` set cs \<Longrightarrow> map fst (grow_sizes names entry cs) = map fst cs"
  unfolding grow_sizes_def
proof (induction names arbitrary: cs)
  case Nil
  then show ?case by simp
next
  case (Cons n ns)
  have k: "map fst (grow_size entry n cs) = map fst cs"
    using Cons.prems by (simp add: grow_size_keys)
  then have "fst ` set (grow_size entry n cs) = fst ` set cs"
    by (metis list.set_map)
  with Cons.prems have "set ns \<subseteq> fst ` set (grow_size entry n cs)" by simp
  from Cons.IH [OF this] k show ?case by simp
qed

lemma grow_sizes_lookup:
  "map_of cs f = Some s \<Longrightarrow>
   map_of (grow_sizes names entry cs) f =
     Some (if f \<in> set names then max s (value_len entry f) else s)"
  unfolding grow_sizes_def
proof (induction names arbitrary: cs s)
  case Nil
  then show ?case by simp
next
  case (Cons n ns)
  show ?case
  proof (cases "f = n")
    case True
    have "map_of (grow_size entry n cs) f = Some (max s (value_len entry f))"
      using Cons.prems True by (simp add: grow_size_lookup dict_get_def)
    from Cons.IH [OF this] True show ?thesis by simp
  next
    case False
    have "map_of (grow_size entry n cs) f = Some s"
      using Cons.prems False by (simp add: grow_size_lookup)
    from Cons.IH [OF this] False show ?thesis by simp
  qed
qed

lemma grow_all_keys:
  "set names \<subseteq> fst ` set cs \<Longrightarrow> map fst (fold (grow_sizes names) entries cs) = map fst cs"
proof (induction entries arbitrary: cs)
  case Nil
  then show ?case by simp
next
  case (Cons e es)
  have k: "map fst (grow_sizes names e cs) = map fst cs"
    using Cons.prems by (rule grow_sizes_keys)
  then have "fst ` set (grow_sizes names e cs) = fst ` set cs"
    by (metis list.set_map)
  with Cons.prems have "set names \<subseteq> fst ` set (grow_sizes names e cs)" by simp
  from Cons.IH [OF this] k show ?case by simp
qed

lemma grow_all_lookup:
  "map_of cs f = Some s \<Longrightarrow> f \<in> set names \<Longrightarrow>
   map_of (fold (grow_sizes names) entries cs) f =
     Some (Max (insert s ((\<lambda>entry. value_len entry f) ` set entries)))"
proof (induction entries arbitrary: cs s)
  case Nil
  then show ?case by simp
next
  case (Cons e es)
  have "map_of (grow_sizes names e cs) f = Some (max s (value_len e f))"
    using Cons.prems by (simp add: grow_sizes_lookup)
  from Cons.IH [OF this Cons.prems(2)]
  have "map_of (fold (grow_sizes names) (e # es) cs) f =
      Some (Max (insert (max s (value_len e f)) ((\<lambda>entry. value_len entry f) ` set es)))"
    by simp
  also have "Max (insert (max s (value_len e f)) ((\<lambda>entry. value_len entry f) ` set es)) =
      Max (insert s ((\<lambda>entry. value_len entry f) ` set (e # es)))"
    by (cases "es = []") (simp_all add: max.assoc max.commute max.left_commute)
  finally show ?case .
qed

lemma cap_sizes_keys: "map fst (cap_sizes m cs) = map fst cs"
  by (induction cs) (auto simp: cap_sizes_def)

lemma cap_sizes_lookup: "map_of (cap_sizes m cs) f = map_option (\<lambda>s. min s m) (map_of cs f)"
  by (induction cs) (auto simp: cap_sizes_def)

lemma label_sizes_keys: "map fst (label_sizes flds) = map fst flds"
  by (induction flds) (auto simp: label_sizes_def)

lemma label_sizes_lookup: "map_of (label_sizes flds) f = map_option len (map_of flds f)"
  by (induction flds) (auto simp: label_sizes_def)

lemma col_sizes_keys: "map fst (col_sizes entries flds m) = map fst flds"
proof -
  have "set (map fst flds) \<subseteq> fst ` set (label_sizes flds)"
    by (metis label_sizes_keys list.set_map order_refl)
  then show ?thesis
    by (simp add: col_sizes_def cap_sizes_keys grow_all_keys label_sizes_keys)
qed

lemma col_sizes_lookup:
  assumes "map_of flds f = Some label"
  shows "map_of (col_sizes entries flds m) f =
     Some (min (Max (insert (len label) ((\<lambda>entry. value_len entry f) ` set entries))) m)"
proof -
  have a: "map_of (label_sizes flds) f = Some (len label)"
    using assms by (simp add: label_sizes_lookup)
  have b: "f \<in> set (map fst flds)"
    using assms by (metis map_of_SomeD list.set_map image_eqI fst_conv)
  show ?thesis
    unfolding col_sizes_def cap_sizes_lookup grow_all_lookup [OF a b] by simp
qed

lemma replace_join:
  "map replace_lt (join_pieces sep (map value_format ws)) =
     join_pieces (replace_char (CHR ''<'') (CHR ''^'') sep) (map (Slot AlignCenter) ws)"
  by (induction ws rule: induct_list012) (simp_all add: value_format_def)

lemma format_join:
  "length ws = length args \<Longrightarrow> \<forall>w\<in>set ws. 0 \<le> w \<Longrightarrow>
   py_format (join_pieces sep (map (Slot a) ws)) args =
     Inr (join sep (map2 (\<lambda>w x. pad a (nat w) x) ws args))"
proof (induction ws arbitrary: args rule: induct_list012)
  case 1
  then show ?case by simp
next
  case (2 w)
  then obtain x where "args = [x]" by (cases args) auto
  with 2 show ?case by (simp add: format_spec_def)
next
  case (3 w v ws)
  then obtain x xs where args: "args = x # xs" by (cases args) auto
  with 3 have "py_format (join_pieces sep (map (Slot a) (v # ws))) xs =
      Inr (join sep (map2 (\<lambda>w x. pad a (nat w) x) (v # ws) xs))"
    by simp
  moreover obtain y ys where xs: "xs = y # ys" using 3 args by (cases xs) auto
  ultimately show ?case using 3 args by (simp add: format_spec_def)
qed

lemma format_join_negative:
  "length ws = length args \<Longrightarrow> \<exists>w\<in>set ws. w < 0 \<Longrightarrow>
   py_format (join_pieces sep (map (Slot a) ws)) args = Inl ValueError"
proof (induction ws arbitrary: args rule: induct_list012)
  case 1
  then show ?case by simp
next
  case (2 w)
  then obtain x where "args = [x]" by (cases args) auto
  with 2 show ?case by (simp add: format_spec_def)
next
  case (3 w v ws)
  then obtain x xs where args: "args = x # xs" by (cases args) auto
  obtain y ys where xs: "xs = y # ys" using 3 args by (cases xs) auto
  show ?case
  proof (cases "w < 0")
    case True
    then show ?thesis using args by (simp add: format_spec_def)
  next
    case False
    with 3 have "\<exists>w\<in>set (v # ws). w < 0" by auto
    with 3 args have "py_format (join_pieces sep (map (Slot a) (v # ws))) xs = Inl ValueError"
      by simp
    then show ?thesis using args xs False by (simp add: format_spec_def)
  qed
qed

lemma length_pad: "length (pad a w s) = max w (length s)"
  by (cases a) (auto simp: Let_def pad.simps)

lemma print_entries_ok:
  assumes "\<And>entry. py_format template (map (\<lambda>field. extract_value entry field m (PStr '''')) names)
             = Inr (line entry)"
  shows "print_entries template names m entries out = (out @ map line entries, None)"
  using assms by (induction entries arbitrary: out) (simp_all add: Let_def)

lemma map2_map_map: "map2 f (map g xs) (map h xs) = map (\<lambda>x. f (g x) (h x)) xs"
  by (induction xs) simp_all

lemma col_sizes_nonneg:
  assumes "0 \<le> m"
  shows "0 \<le> dict_get (col_sizes entries flds m) f 0"
proof (cases "map_of flds f")
  case None
  then have "f \<notin> fst ` set flds" by (simp add: map_of_eq_None_iff)
  then have "f \<notin> fst ` set (col_sizes entries flds m)"
    by (metis col_sizes_keys list.set_map)
  then have "map_of (col_sizes entries flds m) f = None" by (simp add: map_of_eq_None_iff)
  then show ?thesis by (simp add: dict_get_def)
next
  case (Some label)
  have "len label \<le> Max (insert (len label) ((\<lambda>entry. value_len entry f) ` set entries))"
    by (rule Max_ge) simp_all
  moreover have "0 \<le> len label" by (simp add: len_def)
  ultimately have "0 \<le> Max (insert (len label) ((\<lambda>entry. value_len entry f) ` set entries))"
    by linarith
  then show ?thesis
    using assms by (simp add: dict_get_def col_sizes_lookup [OF Some])
qed

lemma col_sizes_negative:
  assumes "m < 0" and "f \<in> fst ` set flds"
  shows "dict_get (col_sizes entries flds m) f 0 < 0"
proof -
  from assms(2) obtain label where "map_of flds f = Some label"
    by (metis map_of_eq_None_iff not_Some_eq)
  from col_sizes_lookup [OF this] assms(1) show ?thesis by (simp add: dict_get_def)
qed

lemma print_table_rendered:
  assumes "flds = [] \<or> 0 \<le> m"
  shows "print_table entries flds m sep =
     (header_line entries flds m sep # str_times (CHR ''-'') (rule_width entries flds m sep)
        # map (entry_line entries flds m sep) entries, None)"
proof -
  define fs where "fs = py_dict flds"
  define sizes where "sizes = col_sizes entries fs m"
  define ws where "ws = map (\<lambda>field. dict_get sizes field 0) (map fst fs)"
  have nonneg: "\<forall>w\<in>set ws. 0 \<le> w"
  proof (cases "flds = []")
    case True
    then show ?thesis by (simp add: ws_def fs_def py_dict_def)
  next
    case False
    with assms have "0 \<le> m" by simp
    then show ?thesis by (auto simp: ws_def sizes_def col_sizes_nonneg)
  qed
  have template: "row_template sizes fs sep = join_pieces sep (map (Slot AlignLeft) ws)"
    by (simp add: row_template_def ws_def value_format_def comp_def)
  have header_template: "map replace_lt (row_template sizes fs sep) =
      join_pieces (replace_char (CHR ''<'') (CHR ''^'') sep) (map (Slot AlignCenter) ws)"
    using replace_join [of sep ws] by (simp add: row_template_def ws_def comp_def)
  have ws_fs: "ws = map (\<lambda>p. dict_get sizes (fst p) 0) fs"
    by (simp add: ws_def)
  have hs: "map (\<lambda>h. slice_to h m) (map snd fs) = map (\<lambda>p. slice_to (snd p) m) fs"
    by simp
  have names: "map fst fs = map (\<lambda>p. fst p) fs"
    by simp
  have header: "py_format (map replace_lt (row_template sizes fs sep))
        (map (\<lambda>h. slice_to h m) (map snd fs)) = Inr (header_line entries flds m sep)"
  proof -
    have "py_format (join_pieces (replace_char (CHR ''<'') (CHR ''^'') sep)
            (map (Slot AlignCenter) ws)) (map (\<lambda>h. slice_to h m) (map snd fs)) =
          Inr (join (replace_char (CHR ''<'') (CHR ''^'') sep)
            (map2 (\<lambda>w x. pad AlignCenter (nat w) x) ws (map (\<lambda>h. slice_to h m) (map snd fs))))"
      using nonneg by (intro format_join) (simp_all add: ws_def)
    also have "map2 (\<lambda>w x. pad AlignCenter (nat w) x) ws (map (\<lambda>h. slice_to h m) (map snd fs)) =
        map (\<lambda>p. pad AlignCenter (nat (dict_get sizes (fst p) 0)) (slice_to (snd p) m)) fs"
      unfolding ws_fs hs by (rule map2_map_map)
    finally show ?thesis
      unfolding header_template
      by (simp add: header_line_def header_cell_def [abs_def] col_width_def fs_def sizes_def)
  qed
  have line: "py_format (row_template sizes fs sep)
        (map (\<lambda>field. extract_value entry field m (PStr '''')) (map fst fs))
      = Inr (entry_line entries flds m sep entry)" for entry
  proof -
    let ?vals = "map (\<lambda>field. extract_value entry field m (PStr '''')) (map fst fs)"
    have "py_format (join_pieces sep (map (Slot AlignLeft) ws)) ?vals =
          Inr (join sep (map2 (\<lambda>w x. pad AlignLeft (nat w) x) ws ?vals))"
      using nonneg by (intro format_join) (simp_all add: ws_def)
    also have "map2 (\<lambda>w x. pad AlignLeft (nat w) x) ws ?vals =
        map (\<lambda>field. pad AlignLeft (nat (dict_get sizes field 0))
               (extract_value entry field m (PStr ''''))) (map fst fs)"
      unfolding ws_def by (rule map2_map_map)
    finally show ?thesis
      unfolding template
      by (simp add: entry_line_def entry_cell_def [abs_def] col_width_def fs_def sizes_def)
  qed
  have "print_table entries flds m sep =
      (case py_format (map replace_lt (row_template sizes fs sep))
              (map (\<lambda>h. slice_to h m) (map snd fs)) of
         Inl e \<Rightarrow> ([], Some e)
       | Inr header \<Rightarrow>
           print_entries (row_template sizes fs sep) (map fst fs) m entries
             [header, str_times (CHR ''-'') (table_width sizes fs sep)])"
    unfolding print_table_def Let_def fs_def sizes_def by (rule refl)
  also have "\<dots> = ([header_line entries flds m sep, str_times (CHR ''-'') (table_width sizes fs sep)]
        @ map (entry_line entries flds m sep) entries, None)"
    unfolding header sum.case
    by (rule print_entries_ok [where line = "entry_line entries flds m sep", OF line])
  finally show ?thesis
    by (simp add: rule_width_def fs_def sizes_def)
qed

lemma print_table_raises:
  assumes "flds \<noteq> []" and "m < 0"
  shows "print_table entries flds m sep = ([], Some ValueError)"
proof -
  define fs where "fs = py_dict flds"
  define sizes where "sizes = col_sizes entries fs m"
  define ws where "ws = map (\<lambda>field. dict_get sizes field 0) (map fst fs)"
  have "fs \<noteq> []" using assms(1) by (simp add: fs_def py_dict_empty)
  then obtain f where f: "f \<in> fst ` set fs" by (cases fs) auto
  then have "dict_get sizes f 0 < 0" unfolding sizes_def using assms(2) by (simp add: col_sizes_negative)
  with f have neg: "\<exists>w\<in>set ws. w < 0" by (auto simp: ws_def)
  have header_template: "map replace_lt (row_template sizes fs sep) =
      join_pieces (replace_char (CHR ''<'') (CHR ''^'') sep) (map (Slot AlignCenter) ws)"
    using replace_join [of sep ws] by (simp add: row_template_def ws_def comp_def)
  have "py_format (map replace_lt (row_template sizes fs sep))
        (map (\<lambda>h. slice_to h m) (map snd fs)) = Inl ValueError"
    unfolding header_template
    using neg by (intro format_join_negative) (simp_all add: ws_def)
  then show ?thesis
    unfolding print_table_def Let_def fs_def sizes_def by (simp only: sum.case)
qed

lemma dict_get_keys:
  "distinct (map fst d) \<Longrightarrow> map (\<lambda>k. dict_get d k dflt) (map fst d) = map snd d"
proof (induction d)
  case Nil
  then show ?case by simp
next
  case (Cons p d)
  obtain k v where p: "p = (k, v)" by (cases p)
  have "map (\<lambda>k'. dict_get (p # d) k' dflt) (map fst d) = map (\<lambda>k'. dict_get d k' dflt) (map fst d)"
    using Cons.prems p by (intro map_cong) (auto simp: dict_get_def)
  with Cons p show ?case by (simp add: dict_get_def)
qed

lemma py_dict_length: "length (py_dict flds) = card (fst ` set flds)"
proof -
  have "card (set (map fst (py_dict flds))) = length (map fst (py_dict flds))"
    by (rule distinct_card) (rule py_dict_distinct)
  then show ?thesis by (simp add: py_dict_keys)
qed

lemma rule_width_sum:
  "rule_width entries flds m sep =
     (\<Sum>field\<leftarrow>map fst (py_dict flds). col_width entries flds m field)
       + (int (card (fst ` set flds)) - 1) * len sep"
proof -
  let ?sizes = "col_sizes entries (py_dict flds) m"
  have "distinct (map fst ?sizes)"
    by (simp add: col_sizes_keys py_dict_distinct)
  then have "map (\<lambda>k. dict_get ?sizes k 0) (map fst ?sizes) = map snd ?sizes"
    by (rule dict_get_keys)
  then have "map snd ?sizes = map (col_width entries flds m) (map fst (py_dict flds))"
    by (simp add: col_sizes_keys col_width_def [abs_def])
  then show ?thesis
    by (simp add: rule_width_def table_width_def Let_def len_def py_dict_length)
qed

lemma col_width_formula:
  assumes "map_of (py_dict flds) field = Some label"
  shows "col_width entries flds m field =
     min m (Max (insert (len label)
       ((\<lambda>entry. len (str_py (dict_get entry field (PStr '''')))) ` set entries)))"
  using col_sizes_lookup [OF assms, of entries m]
  by (simp add: col_width_def dict_get_def value_len_def [abs_def] min.commute)

lemma rendered_cases:
  assumes "print_table entries flds m sep = (out, None)"
  shows "flds = [] \<or> 0 \<le> m"
proof (rule ccontr)
  assume "\<not> (flds = [] \<or> 0 \<le> m)"
  then have "print_table entries flds m sep = ([], Some ValueError)"
    by (intro print_table_raises) auto
  with assms show False by simp
qed

lemma rule_width_nonneg:
  assumes "flds \<noteq> []" and "0 \<le> m"
  shows "0 \<le> rule_width entries flds m sep"
proof -
  have "0 \<le> (\<Sum>field\<leftarrow>map fst (py_dict flds). col_width entries flds m field)"
    using assms(2) by (intro sum_list_nonneg) (auto simp: col_width_def col_sizes_nonneg)
  moreover have "fst ` set flds \<noteq> {}" using assms(1) by simp
  then have "0 < card (fst ` set flds)" by (simp add: card_gt_0_iff)
  then have "0 \<le> (int (card (fst ` set flds)) - 1) * len sep"
    by (simp add: len_def)
  ultimately show ?thesis by (simp add: rule_width_sum)
qed


section \<open>Column widths and the rule line\<close>

text \<open>
  C1 (as amended).  For every table that \<open>print_table\<close> renders, the width of each column
  is the minimum of \<open>max_cols\<close> and the largest of the length of its header label and the
  lengths of \<open>str(entry.get(field, ''))\<close> over all entries.  The second printed line
  consists of dashes only; for a table with at least one column their number is the sum
  of the column widths plus (number of columns - 1) times the length of the separator,
  and for a table without columns the line is empty.  The columns are those of
  \<open>OrderedDict(fields)\<close>: a field given twice is one column.  The separator holds no
  brace.
\<close>

theorem print_table_widths_and_rule:
  assumes rendered: "print_table entries flds max_cols sep = (out, None)"
    and plain: "plain_text sep"
  shows "(\<forall>field label. map_of (py_dict flds) field = Some label \<longrightarrow>
            col_width entries flds max_cols field =
              min max_cols (Max (insert (len label)
                ((\<lambda>entry. len (str_py (dict_get entry field (PStr '''')))) ` set entries))))
       \<and> out ! 1 = replicate (length (out ! 1)) (CHR ''-'')
       \<and> len (out ! 1) =
           (if flds = [] then 0
            else (\<Sum>field\<leftarrow>map fst (py_dict flds). col_width entries flds max_cols field)
                   + (int (card (fst ` set flds)) - 1) * len sep)"
proof -
  from rendered have ok: "flds = [] \<or> 0 \<le> max_cols" by (rule rendered_cases)
  from print_table_rendered [OF ok, of entries sep] rendered
  have rule: "out ! Suc 0 = str_times (CHR ''-'') (rule_width entries flds max_cols sep)"
    by auto
  have count: "len (out ! 1) =
      (if flds = [] then 0
       else (\<Sum>field\<leftarrow>map fst (py_dict flds). col_width entries flds max_cols field)
              + (int (card (fst ` set flds)) - 1) * len sep)"
  proof (cases "flds = []")
    case True
    then show ?thesis
      by (simp add: rule str_times_def rule_width_sum py_dict_def len_def)
  next
    case False
    with ok have "0 \<le> rule_width entries flds max_cols sep"
      by (simp add: rule_width_nonneg)
    then have "len (out ! 1) = rule_width entries flds max_cols sep"
      by (simp add: rule str_times_def len_def)
    with False show ?thesis
      by (simp only: rule_width_sum if_False)
  qed
  show ?thesis
    using count by (simp add: col_width_formula) (simp add: rule str_times_def)
qed


theorem print_table_widths_and_rule_witness:
  "print_table [[(''a'', PStr ''1''), (''b'', PStr ''22'')], [(''a'', PStr ''333'')]]
       [(''a'', ''a''), (''b'', ''b'')] 100 '' | ''
     = (['' a  | b '', ''--------'', ''1   | 22'', ''333 |   ''], None)
   \<and> col_width [[(''a'', PStr ''1''), (''b'', PStr ''22'')], [(''a'', PStr ''333'')]]
       [(''a'', ''a''), (''b'', ''b'')] 100 ''a'' = 3
   \<and> col_width [[(''a'', PStr ''1''), (''b'', PStr ''22'')], [(''a'', PStr ''333'')]]
       [(''a'', ''a''), (''b'', ''b'')] 100 ''b'' = 2
   \<and> len (['' a  | b '', ''--------'', ''1   | 22'', ''333 |   ''] ! 1) = 3 + 2 + (2 - 1) * 3"
proof -
  let ?entries = "[[(''a'', PStr ''1''), (''b'', PStr ''22'')], [(''a'', PStr ''333'')]]"
  let ?flds = "[(''a'', ''a''), (''b'', ''b'')]"
  let ?out = "['' a  | b '', ''--------'', ''1   | 22'', ''333 |   '']"
  have rendered: "print_table ?entries ?flds 100 '' | '' = (?out, None)"
    by code_simp
  have a: "col_width ?entries ?flds 100 ''a'' = 3"
    by code_simp
  have b: "col_width ?entries ?flds 100 ''b'' = 2"
    by code_simp
  have n: "int (card (fst ` set ?flds)) = 2"
    by simp
  have names: "map fst (py_dict ?flds) = [''a'', ''b'']"
    by code_simp
  have plain: "plain_text '' | ''"
    by (simp add: plain_text_def)
  from print_table_widths_and_rule [OF rendered plain]
  have "len (?out ! 1) =
      (\<Sum>field\<leftarrow>map fst (py_dict ?flds). col_width ?entries ?flds 100 field)
        + (int (card (fst ` set ?flds)) - 1) * len '' | ''"
    by simp
  then have "len (?out ! 1) = 3 + 2 + (2 - 1) * 3"
    unfolding names n by (simp add: a b len_def)
  with rendered a b show ?thesis by simp
qed

text \<open>
  C1 as stated fails for the table without columns: the rule line has no dash, while the
  sum of the widths plus (0 - 1) times the length of \<open>' | '\<close> is \<open>-3\<close>.
\<close>

theorem rule_line_no_columns_counterexample:
  "print_table [] [] 100 '' | '' = ([[], []], None)
   \<and> len (([[], []] :: string list) ! 1) \<noteq>
       (\<Sum>field\<leftarrow>map fst (py_dict ([] :: (string \<times> string) list)). col_width [] [] 100 field)
         + (int (card (fst ` set ([] :: (string \<times> string) list))) - 1) * len '' | ''"
proof -
  have "print_table [] [] 100 '' | '' = ([[], []], None)"
    by code_simp
  then show ?thesis
    by (simp add: py_dict_def len_def)
qed

lemma slice_to_empty: "slice_to [] n = []"
  by (simp add: slice_to_def)

lemma slice_to_long: "0 \<le> n \<Longrightarrow> n < len s \<Longrightarrow> slice_to s n = take (nat n) s"
  by (simp add: slice_to_def)

lemma slice_to_long_length: "0 \<le> n \<Longrightarrow> n < len s \<Longrightarrow> len (slice_to s n) = n"
  by (simp add: slice_to_def len_def)

lemma slice_to_length: "0 \<le> n \<Longrightarrow> len (slice_to s n) = min (len s) n"
  by (auto simp: slice_to_def len_def)

lemma extract_value_missing:
  "map_of entry field = None \<Longrightarrow> extract_value entry field m (PStr '''') = ''''"
  by (simp add: extract_value_def dict_get_def slice_to_empty)

lemma extract_value_none:
  "map_of entry field = Some PNone \<Longrightarrow> extract_value entry field m (PStr '''') = ''''"
  by (simp add: extract_value_def dict_get_def slice_to_empty)

lemma extract_value_some:
  "map_of entry field = Some v \<Longrightarrow> v \<noteq> PNone \<Longrightarrow>
   extract_value entry field m (PStr '''') = slice_to (str_py v) m"
  by (cases v) (simp_all add: extract_value_def dict_get_def)

lemma extract_value_short:
  assumes "0 \<le> m"
  shows "len (extract_value entry field m (PStr '''')) \<le> min m (value_len entry field)"
proof (cases "map_of entry field")
  case None
  then show ?thesis
    using assms by (simp add: extract_value_missing len_def value_len_def dict_get_def)
next
  case (Some v)
  show ?thesis
  proof (cases "v = PNone")
    case True
    with Some show ?thesis
      using assms by (simp add: extract_value_none len_def value_len_def dict_get_def)
  next
    case False
    with Some show ?thesis
      using assms
      by (simp add: extract_value_some slice_to_length value_len_def dict_get_def min.commute)
  qed
qed

lemma col_width_ge_value:
  assumes "map_of (py_dict flds) field = Some label" and "entry \<in> set entries"
  shows "min m (value_len entry field) \<le> col_width entries flds m field"
proof -
  define widest where
    "widest = Max (insert (len label) ((\<lambda>entry. value_len entry field) ` set entries))"
  have "value_len entry field \<le> widest"
    unfolding widest_def using assms(2) by (intro Max_ge) auto
  moreover have "col_width entries flds m field = min m widest"
    by (simp add: col_width_formula [OF assms(1)] widest_def value_len_def [abs_def])
  ultimately show ?thesis by simp
qed

lemma col_width_ge_label:
  assumes "map_of (py_dict flds) field = Some label"
  shows "min m (len label) \<le> col_width entries flds m field"
proof -
  define widest where
    "widest = Max (insert (len label) ((\<lambda>entry. value_len entry field) ` set entries))"
  have "len label \<le> widest"
    unfolding widest_def by (intro Max_ge) auto
  moreover have "col_width entries flds m field = min m widest"
    by (simp add: col_width_formula [OF assms(1)] widest_def value_len_def [abs_def])
  ultimately show ?thesis by simp
qed

lemma col_width_le_max: 
  assumes "map_of (py_dict flds) field = Some label"
  shows "col_width entries flds m field \<le> m"
  by (simp add: col_width_formula [OF assms])

lemma pad_full: "w \<le> length s \<Longrightarrow> pad a w s = s"
  by (cases a) (simp_all add: pad.simps)

lemma entry_cell_length:
  assumes "0 \<le> m" and "map_of (py_dict flds) field = Some label" and "entry \<in> set entries"
  shows "len (entry_cell entries flds m entry field) = col_width entries flds m field"
proof -
  have "len (extract_value entry field m (PStr '''')) \<le> col_width entries flds m field"
    using extract_value_short [OF assms(1)] col_width_ge_value [OF assms(2,3)]
    by (rule order_trans)
  then show ?thesis
    by (simp add: entry_cell_def length_pad len_def)
qed

lemma header_cell_length:
  assumes "0 \<le> m" and "map_of (py_dict flds) field = Some label"
  shows "len (header_cell entries flds m (field, label)) = col_width entries flds m field"
proof -
  have "len (slice_to label m) \<le> col_width entries flds m field"
    using col_width_ge_label [OF assms(2), of m entries] assms(1)
    by (simp add: slice_to_length min.commute)
  then show ?thesis
    by (simp add: header_cell_def length_pad len_def)
qed

lemma rendered_lines:
  assumes "print_table entries flds m sep = (out, None)"
  shows "out = header_line entries flds m sep
           # str_times (CHR ''-'') (rule_width entries flds m sep)
           # map (entry_line entries flds m sep) entries"
  using print_table_rendered [OF rendered_cases [OF assms], of entries sep] assms by simp

lemma py_dict_nonempty: "map_of (py_dict flds) field = Some label \<Longrightarrow> flds \<noteq> []"
  by (auto simp: py_dict_def)

section \<open>Truncation\<close>

text \<open>
  C4.  In a table rendered with a separator that holds no brace, the header line is the
  join of the header cells and the line of an entry the join of its cells.  A header label longer than \<open>max_cols\<close> is rendered as
  exactly its first \<open>max_cols\<close> characters, and so is a value whose text \<open>str(value)\<close> is
  longer than \<open>max_cols\<close>; no cell of an entry of the table is longer than \<open>max_cols\<close>.
  With the rows \<open>{"x": "ab"}\<close> and \<open>{"x": "abcdef"}\<close>, the header \<open>x\<close> and \<open>max_cols = 4\<close>
  the column is 4 wide and the longer value is rendered as \<open>abcd\<close> (the witness).
\<close>

theorem truncation_to_max_cols:
  assumes "print_table entries flds max_cols sep = (out, None)"
    and "map_of (py_dict flds) field = Some label"
    and "plain_text sep"
  shows "out ! 0 = join (replace_char (CHR ''<'') (CHR ''^'') sep)
                     (map (header_cell entries flds max_cols) (py_dict flds))
       \<and> (\<forall>i < length entries. out ! (2 + i) =
             join sep (map (entry_cell entries flds max_cols (entries ! i)) (map fst (py_dict flds))))
       \<and> (max_cols < len label \<longrightarrow>
             header_cell entries flds max_cols (field, label) = take (nat max_cols) label
           \<and> len (header_cell entries flds max_cols (field, label)) = max_cols)
       \<and> (\<forall>entry\<in>set entries. \<forall>v.
             map_of entry field = Some v \<and> v \<noteq> PNone \<and> max_cols < len (str_py v) \<longrightarrow>
               entry_cell entries flds max_cols entry field = take (nat max_cols) (str_py v)
             \<and> len (entry_cell entries flds max_cols entry field) = max_cols)
       \<and> (\<forall>entry\<in>set entries. len (entry_cell entries flds max_cols entry field) \<le> max_cols)"
proof -
  have nonneg: "0 \<le> max_cols"
    using rendered_cases [OF assms(1)] py_dict_nonempty [OF assms(2)] by simp
  note lines = rendered_lines [OF assms(1)]
  have first: "out ! 0 = join (replace_char (CHR ''<'') (CHR ''^'') sep)
                     (map (header_cell entries flds max_cols) (py_dict flds))"
    by (subst lines) (simp add: header_line_def)
  have rest: "\<forall>i < length entries. out ! (2 + i) =
      join sep (map (entry_cell entries flds max_cols (entries ! i)) (map fst (py_dict flds)))"
    by (subst lines) (simp add: entry_line_def)
  have header: "header_cell entries flds max_cols (field, label) = take (nat max_cols) label
           \<and> len (header_cell entries flds max_cols (field, label)) = max_cols"
    if long: "max_cols < len label"
  proof -
    have cut: "slice_to label max_cols = take (nat max_cols) label"
      by (rule slice_to_long [OF nonneg long])
    have n: "len (slice_to label max_cols) = max_cols"
      by (rule slice_to_long_length [OF nonneg long])
    have "col_width entries flds max_cols field = max_cols"
      using col_width_ge_label [OF assms(2), of max_cols entries]
        col_width_le_max [OF assms(2), of entries max_cols] long by simp
    then have "header_cell entries flds max_cols (field, label) = slice_to label max_cols"
      using n by (simp add: header_cell_def pad_full len_def)
    with cut n show ?thesis by metis
  qed
  have data: "entry_cell entries flds max_cols entry field = take (nat max_cols) (str_py v)
             \<and> len (entry_cell entries flds max_cols entry field) = max_cols"
    if "entry \<in> set entries" and v: "map_of entry field = Some v" "v \<noteq> PNone"
      and long: "max_cols < len (str_py v)" for entry v
  proof -
    have cut: "slice_to (str_py v) max_cols = take (nat max_cols) (str_py v)"
      by (rule slice_to_long [OF nonneg long])
    have n: "len (slice_to (str_py v) max_cols) = max_cols"
      by (rule slice_to_long_length [OF nonneg long])
    have "value_len entry field = len (str_py v)"
      using v by (simp add: value_len_def dict_get_def)
    then have "col_width entries flds max_cols field = max_cols"
      using col_width_ge_value [OF assms(2) that(1), of max_cols]
        col_width_le_max [OF assms(2), of entries max_cols] long by simp
    then have "entry_cell entries flds max_cols entry field = slice_to (str_py v) max_cols"
      using n v by (simp add: entry_cell_def extract_value_some pad_full len_def)
    with cut n show ?thesis by metis
  qed
  have bound: "len (entry_cell entries flds max_cols entry field) \<le> max_cols"
    if "entry \<in> set entries" for entry
    using entry_cell_length [OF nonneg assms(2) that] col_width_le_max [OF assms(2), of entries max_cols]
    by simp
  from first rest header data bound show ?thesis by blast
qed

theorem truncation_to_max_cols_witness:
  "print_table [[(''x'', PStr ''ab'')], [(''x'', PStr ''abcdef'')]] [(''x'', ''x'')] 4 '' | ''
     = (['' x  '', ''----'', ''ab  '', ''abcd''], None)
   \<and> map_of (py_dict [(''x'', ''x'')]) ''x'' = Some ''x''
   \<and> col_width [[(''x'', PStr ''ab'')], [(''x'', PStr ''abcdef'')]] [(''x'', ''x'')] 4 ''x'' = 4
   \<and> entry_cell [[(''x'', PStr ''ab'')], [(''x'', PStr ''abcdef'')]] [(''x'', ''x'')] 4
         [(''x'', PStr ''abcdef'')] ''x'' = ''abcd''
   \<and> len (entry_cell [[(''x'', PStr ''ab'')], [(''x'', PStr ''abcdef'')]] [(''x'', ''x'')] 4
         [(''x'', PStr ''ab'')] ''x'') \<le> 4"
proof -
  let ?entries = "[[(''x'', PStr ''ab'')], [(''x'', PStr ''abcdef'')]]"
  let ?flds = "[(''x'', ''x'')]"
  have rendered: "print_table ?entries ?flds 4 '' | '' = (['' x  '', ''----'', ''ab  '', ''abcd''], None)"
    by code_simp
  have column: "map_of (py_dict ?flds) ''x'' = Some ''x''"
    by code_simp
  have width: "col_width ?entries ?flds 4 ''x'' = 4"
    by code_simp
  have plain: "plain_text '' | ''"
    by (simp add: plain_text_def)
  note cut = truncation_to_max_cols [OF rendered column plain]
  from cut have "\<forall>entry\<in>set ?entries. \<forall>v.
      map_of entry ''x'' = Some v \<and> v \<noteq> PNone \<and> 4 < len (str_py v) \<longrightarrow>
        entry_cell ?entries ?flds 4 entry ''x'' = take (nat 4) (str_py v)
      \<and> len (entry_cell ?entries ?flds 4 entry ''x'') = 4"
    by blast
  then have long: "entry_cell ?entries ?flds 4 [(''x'', PStr ''abcdef'')] ''x'' = ''abcd''"
    by (simp add: len_def)
  from cut have "\<forall>entry\<in>set ?entries. len (entry_cell ?entries ?flds 4 entry ''x'') \<le> 4"
    by blast
  then have short: "len (entry_cell ?entries ?flds 4 [(''x'', PStr ''ab'')] ''x'') \<le> 4"
    by simp
  from rendered column width long short show ?thesis by blast
qed

lemma pad_left_empty: "pad AlignLeft w [] = replicate w (CHR '' '')"
  by (simp add: pad.simps)

lemma print_table_outcome:
  "snd (print_table entries flds m sep) = (if flds = [] \<or> 0 \<le> m then None else Some ValueError)"
proof (cases "flds = [] \<or> 0 \<le> m")
  case True
  then show ?thesis by (simp add: print_table_rendered)
next
  case False
  then have "print_table entries flds m sep = ([], Some ValueError)"
    by (intro print_table_raises) auto
  with False show ?thesis by simp
qed

section \<open>Missing fields\<close>

text \<open>
  C5.  When an entry has no value for a column, whether or not any other entry has one,
  \<open>_extract_value\<close> gives the empty string and the rendered cell is as many blanks as the
  column is wide.  Whether \<open>print_table\<close> raises does not depend on the entries at all: it
  raises only for a negative \<open>max_cols\<close> with at least one column, so no missing or unknown
  column produces an error.  The separator holds no brace.  The witness renders a column that no row has, directly and
  through \<open>main\<close> with \<open>--only-columns a zz\<close>.
\<close>

theorem missing_field_renders_blank:
  assumes "i < length entries" and "map_of (entries ! i) field = None"
    and "plain_text sep"
  shows "extract_value (entries ! i) field max_cols (PStr '''') = ''''
       \<and> entry_cell entries flds max_cols (entries ! i) field =
           replicate (nat (col_width entries flds max_cols field)) (CHR '' '')
       \<and> snd (print_table entries flds max_cols sep) =
           (if flds = [] \<or> 0 \<le> max_cols then None else Some ValueError)
       \<and> (flds = [] \<or> 0 \<le> max_cols \<longrightarrow>
            fst (print_table entries flds max_cols sep) ! (2 + i) =
              join sep (map (entry_cell entries flds max_cols (entries ! i))
                         (map fst (py_dict flds))))"
proof -
  have blank: "extract_value (entries ! i) field max_cols (PStr '''') = ''''"
    using assms(2) by (rule extract_value_missing)
  then have cell: "entry_cell entries flds max_cols (entries ! i) field =
      replicate (nat (col_width entries flds max_cols field)) (CHR '' '')"
    by (simp add: entry_cell_def pad_left_empty)
  have line: "fst (print_table entries flds max_cols sep) ! (2 + i) =
      join sep (map (entry_cell entries flds max_cols (entries ! i)) (map fst (py_dict flds)))"
    if "flds = [] \<or> 0 \<le> max_cols"
    using assms(1) by (simp add: print_table_rendered [OF that] entry_line_def)
  from blank cell line show ?thesis
    by (simp only: print_table_outcome) simp
qed

theorem missing_field_renders_blank_witness:
  \<open>map_of ([[(''a'', PStr ''1'')]] ! 0) ''b'' = None
   \<and> entry_cell [[(''a'', PStr ''1'')]] [(''a'', ''a''), (''b'', ''b'')] 100 [(''a'', PStr ''1'')] ''b''
       = '' ''
   \<and> print_table [[(''a'', PStr ''1'')]] [(''a'', ''a''), (''b'', ''b'')] 100 '' | ''
       = ([''a | b'', ''-----'', ''1 |  ''], None)
   \<and> stdout (main (example_world ''[{"a": "1"}]'' (Inr (List [Dict [(''a'', PStr ''1'')]])) []
                     (Inl SqliteError))
               (example_args (Some [''a'', ''zz'']) None))
       = [''a | zz'', ''------'', ''1 |   '']\<close>
proof -
  let ?entries = "[[(''a'', PStr ''1'')]]"
  let ?flds = "[(''a'', ''a''), (''b'', ''b'')]"
  have missing: "map_of (?entries ! 0) ''b'' = None"
    by simp
  have width: "col_width ?entries ?flds 100 ''b'' = 1"
    by code_simp
  have "entry_cell ?entries ?flds 100 (?entries ! 0) ''b'' =
      replicate (nat (col_width ?entries ?flds 100 ''b'')) (CHR '' '')"
    using missing_field_renders_blank [of 0 ?entries "''b''" "'' | ''" 100 ?flds] missing
    by (simp add: plain_text_def)
  then have cell: "entry_cell ?entries ?flds 100 [(''a'', PStr ''1'')] ''b'' = '' ''"
    by (simp add: width)
  have table: "print_table ?entries ?flds 100 '' | '' = ([''a | b'', ''-----'', ''1 |  ''], None)"
    by code_simp
  have run: \<open>stdout (main (example_world ''[{"a": "1"}]'' (Inr (List [Dict [(''a'', PStr ''1'')]])) []
                     (Inl SqliteError))
               (example_args (Some [''a'', ''zz'']) None))
       = [''a | zz'', ''------'', ''1 |   '']\<close>
    by code_simp
  from missing cell table run show ?thesis by blast
qed

lemma py_dict_member:
  assumes "p \<in> set (py_dict flds)"
  shows "map_of (py_dict flds) (fst p) = Some (snd p)"
proof -
  from assms have "(fst p, snd p) \<in> set (py_dict flds)" by simp
  with py_dict_distinct [of flds] show ?thesis by (rule map_of_is_SomeI)
qed

section \<open>Alignment\<close>

text \<open>
  C6.  In every table rendered with a separator that holds no brace, the first line is
  the join of the header cells and the line of each entry the join of its cells.  A header cell is the label (cut to
  \<open>max_cols\<close>) with the padding split around it, the left part the smaller one and the
  two differing by at most one blank: the header is centred, by the template with every
  \<open><\<close> replaced by \<open>^\<close>.  The cell of an entry is the value followed by all of the padding:
  the entries are left-justified.  Both kinds of cell are exactly as long as the column
  is wide.  (The replacement also turns a \<open><\<close> inside the separator of the header line
  into \<open>^\<close>.)
\<close>

theorem header_centred_entries_left:
  assumes rendered: "print_table entries flds max_cols sep = (out, None)"
    and plain: "plain_text sep"
  shows "out ! 0 = join (replace_char (CHR ''<'') (CHR ''^'') sep)
                     (map (header_cell entries flds max_cols) (py_dict flds))
       \<and> (\<forall>i < length entries. out ! (2 + i) =
             join sep (map (entry_cell entries flds max_cols (entries ! i)) (map fst (py_dict flds))))
       \<and> (\<forall>p\<in>set (py_dict flds).
             (let h = slice_to (snd p) max_cols;
                  spaces = nat (col_width entries flds max_cols (fst p)) - length h;
                  left = spaces div 2;
                  right = spaces - left
              in header_cell entries flds max_cols p
                   = replicate left (CHR '' '') @ h @ replicate right (CHR '' '')
                 \<and> left \<le> right \<and> right \<le> left + 1
                 \<and> len (header_cell entries flds max_cols p) = col_width entries flds max_cols (fst p)))
       \<and> (\<forall>entry\<in>set entries. \<forall>p\<in>set (py_dict flds).
             (let v = extract_value entry (fst p) max_cols (PStr '''');
                  spaces = nat (col_width entries flds max_cols (fst p)) - length v
              in entry_cell entries flds max_cols entry (fst p) = v @ replicate spaces (CHR '' '')
                 \<and> len (entry_cell entries flds max_cols entry (fst p))
                     = col_width entries flds max_cols (fst p)))"
proof -
  note lines = rendered_lines [OF rendered]
  have first: "out ! 0 = join (replace_char (CHR ''<'') (CHR ''^'') sep)
                     (map (header_cell entries flds max_cols) (py_dict flds))"
    by (subst lines) (simp add: header_line_def)
  have rest: "\<forall>i < length entries. out ! (2 + i) =
      join sep (map (entry_cell entries flds max_cols (entries ! i)) (map fst (py_dict flds)))"
    by (subst lines) (simp add: entry_line_def)
  have nonneg: "0 \<le> max_cols" if "p \<in> set (py_dict flds)" for p
    using rendered_cases [OF rendered] py_dict_nonempty [OF py_dict_member [OF that]] by simp
  have header: "(let h = slice_to (snd p) max_cols;
                  spaces = nat (col_width entries flds max_cols (fst p)) - length h;
                  left = spaces div 2;
                  right = spaces - left
              in header_cell entries flds max_cols p
                   = replicate left (CHR '' '') @ h @ replicate right (CHR '' '')
                 \<and> left \<le> right \<and> right \<le> left + 1
                 \<and> len (header_cell entries flds max_cols p) = col_width entries flds max_cols (fst p))"
    if p: "p \<in> set (py_dict flds)" for p
  proof -
    have "len (header_cell entries flds max_cols (fst p, snd p)) = col_width entries flds max_cols (fst p)"
      using nonneg [OF p] py_dict_member [OF p] by (rule header_cell_length)
    then show ?thesis
      by (simp add: Let_def header_cell_def pad.simps) linarith
  qed
  have data: "(let v = extract_value entry (fst p) max_cols (PStr '''');
                  spaces = nat (col_width entries flds max_cols (fst p)) - length v
              in entry_cell entries flds max_cols entry (fst p) = v @ replicate spaces (CHR '' '')
                 \<and> len (entry_cell entries flds max_cols entry (fst p))
                     = col_width entries flds max_cols (fst p))"
    if e: "entry \<in> set entries" and p: "p \<in> set (py_dict flds)" for entry p
  proof -
    have "len (entry_cell entries flds max_cols entry (fst p)) = col_width entries flds max_cols (fst p)"
      using nonneg [OF p] py_dict_member [OF p] e by (rule entry_cell_length)
    then show ?thesis
      by (simp add: Let_def entry_cell_def pad.simps)
  qed
  from first rest header data show ?thesis by blast
qed

theorem header_centred_entries_left_witness:
  "print_table [[(''k'', PStr ''abcdefg'')], [(''k'', PStr ''x'')]] [(''k'', ''id'')] 100 '' | ''
     = ([''  id   '', ''-------'', ''abcdefg'', ''x      ''], None)
   \<and> header_cell [[(''k'', PStr ''abcdefg'')], [(''k'', PStr ''x'')]] [(''k'', ''id'')] 100 (''k'', ''id'')
       = replicate 2 (CHR '' '') @ ''id'' @ replicate 3 (CHR '' '')
   \<and> entry_cell [[(''k'', PStr ''abcdefg'')], [(''k'', PStr ''x'')]] [(''k'', ''id'')] 100
         [(''k'', PStr ''x'')] ''k''
       = ''x'' @ replicate 6 (CHR '' '')"
proof -
  let ?entries = "[[(''k'', PStr ''abcdefg'')], [(''k'', PStr ''x'')]]"
  let ?flds = "[(''k'', ''id'')]"
  have rendered: "print_table ?entries ?flds 100 '' | ''
      = ([''  id   '', ''-------'', ''abcdefg'', ''x      ''], None)"
    by code_simp
  have columns: "py_dict ?flds = [(''k'', ''id'')]"
    by code_simp
  have width: "col_width ?entries ?flds 100 ''k'' = 7"
    by code_simp
  have x: "extract_value [(''k'', PStr ''x'')] ''k'' 100 (PStr '''') = ''x''"
    by code_simp
  have plain: "plain_text '' | ''"
    by (simp add: plain_text_def)
  note aligned = header_centred_entries_left [OF rendered plain]
  from aligned have "\<forall>p\<in>set (py_dict ?flds).
      (let h = slice_to (snd p) 100;
           spaces = nat (col_width ?entries ?flds 100 (fst p)) - length h;
           left = spaces div 2;
           right = spaces - left
       in header_cell ?entries ?flds 100 p
            = replicate left (CHR '' '') @ h @ replicate right (CHR '' '')
          \<and> left \<le> right \<and> right \<le> left + 1
          \<and> len (header_cell ?entries ?flds 100 p) = col_width ?entries ?flds 100 (fst p))"
    by blast
  then have header: "header_cell ?entries ?flds 100 (''k'', ''id'')
       = replicate 2 (CHR '' '') @ ''id'' @ replicate 3 (CHR '' '')"
    unfolding columns by (simp add: Let_def width slice_to_def)
  from aligned have "\<forall>entry\<in>set ?entries. \<forall>p\<in>set (py_dict ?flds).
      (let v = extract_value entry (fst p) 100 (PStr '''');
           spaces = nat (col_width ?entries ?flds 100 (fst p)) - length v
       in entry_cell ?entries ?flds 100 entry (fst p) = v @ replicate spaces (CHR '' '')
          \<and> len (entry_cell ?entries ?flds 100 entry (fst p))
              = col_width ?entries ?flds 100 (fst p))"
    by blast
  then have entry: "entry_cell ?entries ?flds 100 [(''k'', PStr ''x'')] ''k''
       = ''x'' @ replicate 6 (CHR '' '')"
    unfolding columns by (simp add: Let_def width x)
  from rendered header entry show ?thesis by blast
qed

lemma value_len_none: "map_of entry field = Some PNone \<Longrightarrow> value_len entry field = 4"
  by (simp add: value_len_def dict_get_def len_def)

lemma value_len_missing: "map_of entry field = None \<Longrightarrow> value_len entry field = 0"
  by (simp add: value_len_def dict_get_def len_def)

section \<open>Fields holding \<open>None\<close>\<close>

text \<open>
  C10.  A field whose value is \<open>None\<close> is rendered as the empty string, exactly as when
  the entry has no such field, so the two cells are the same; but the width computation
  takes \<open>str(None)\<close>, four characters, where a missing field counts as zero, and the
  column is at least \<open>min(max_cols, 4)\<close> wide.  In the table with the header \<open>a\<close> and the
  one row \<open>{"a": null}\<close> the column is 4 wide although the label rendered in it has one
  character and the value none.
\<close>

theorem none_value_blank_but_counted:
  assumes "map_of entry field = Some PNone"
  shows "extract_value entry field max_cols (PStr '''') = ''''
       \<and> extract_value (AList.delete field entry) field max_cols (PStr '''') = ''''
       \<and> entry_cell entries flds max_cols entry field
           = entry_cell entries flds max_cols (AList.delete field entry) field
       \<and> value_len entry field = 4
       \<and> value_len (AList.delete field entry) field = 0
       \<and> (entry \<in> set entries \<and> map_of (py_dict flds) field = Some label \<longrightarrow>
            min max_cols 4 \<le> col_width entries flds max_cols field)
       \<and> col_width [[(''a'', PNone)]] [(''a'', ''a'')] 100 ''a'' = 4
       \<and> print_table [[(''a'', PNone)]] [(''a'', ''a'')] 100 '' | ''
           = (['' a  '', ''----'', ''    ''], None)
       \<and> len (slice_to ''a'' 100) < 4
       \<and> len (extract_value [(''a'', PNone)] ''a'' 100 (PStr '''')) < 4"
proof -
  have gone: "map_of (AList.delete field entry) field = None"
    by (simp add: delete_conv')
  have none: "extract_value entry field max_cols (PStr '''') = ''''"
    using assms by (rule extract_value_none)
  have missing: "extract_value (AList.delete field entry) field max_cols (PStr '''') = ''''"
    using gone by (rule extract_value_missing)
  have same: "entry_cell entries flds max_cols entry field
           = entry_cell entries flds max_cols (AList.delete field entry) field"
    by (simp add: entry_cell_def none missing)
  have counted: "value_len entry field = 4"
    using assms by (rule value_len_none)
  have uncounted: "value_len (AList.delete field entry) field = 0"
    using gone by (rule value_len_missing)
  have wide: "min max_cols 4 \<le> col_width entries flds max_cols field"
    if "entry \<in> set entries" and "map_of (py_dict flds) field = Some label"
    using col_width_ge_value [OF that(2) that(1), of max_cols] counted by simp
  have w: "col_width [[(''a'', PNone)]] [(''a'', ''a'')] 100 ''a'' = 4"
    by code_simp
  have t: "print_table [[(''a'', PNone)]] [(''a'', ''a'')] 100 '' | ''
           = (['' a  '', ''----'', ''    ''], None)"
    by code_simp
  have h: "len (slice_to ''a'' 100) < 4"
    by code_simp
  have c: "len (extract_value [(''a'', PNone)] ''a'' 100 (PStr '''')) < 4"
    by code_simp
  from none missing same counted uncounted wide w t h c show ?thesis by blast
qed

theorem none_value_blank_but_counted_witness:
  "map_of [(''a'', PStr ''1''), (''b'', PNone)] ''b'' = Some PNone
   \<and> extract_value [(''a'', PStr ''1''), (''b'', PNone)] ''b'' 100 (PStr '''') = ''''
   \<and> value_len [(''a'', PStr ''1''), (''b'', PNone)] ''b'' = 4
   \<and> print_table [[(''a'', PStr ''1''), (''b'', PNone)]] [(''a'', ''a''), (''b'', ''b'')] 100 '' | ''
       = ([''a |  b  '', ''--------'', ''1 |     ''], None)"
proof -
  have none: "map_of [(''a'', PStr ''1''), (''b'', PNone)] ''b'' = Some PNone"
    by simp
  have t: "print_table [[(''a'', PStr ''1''), (''b'', PNone)]] [(''a'', ''a''), (''b'', ''b'')] 100 '' | ''
       = ([''a |  b  '', ''--------'', ''1 |     ''], None)"
    by code_simp
  from none_value_blank_but_counted [OF none, of 100] none t show ?thesis by blast
qed

section \<open>Properties of the parser\<close>

lemma update_cols_dicts:
  "update_cols cols (map Dict rows) = Inr (cols \<union> (\<Union>row\<in>set rows. fst ` set row))"
  by (induction rows arbitrary: cols) (simp_all add: Un_assoc)

lemma rows_of_dicts: "rows_of (map Dict rows) = rows"
  by (induction rows) simp_all

text \<open>When the loop over the keys has passed, the entries are the items themselves.\<close>

lemma rows_of_passed: "update_cols cols items = Inr cols' \<Longrightarrow> map Dict (rows_of items) = items"
proof (induction items arbitrary: cols)
  case Nil
  then show ?case by simp
next
  case (Cons item items)
  then show ?case by (cases item) (auto split: sum.splits)
qed

lemma update_cols_not_dict:
  "\<exists>item\<in>set items. \<forall>d. item \<noteq> Dict d \<Longrightarrow> update_cols cols items = Inl AttributeError"
proof (induction items arbitrary: cols)
  case Nil
  then show ?case by simp
next
  case (Cons item items)
  show ?case
  proof (cases item)
    case (Dict d)
    with Cons.prems have "\<exists>item\<in>set items. \<forall>d. item \<noteq> Dict d" by auto
    then show ?thesis using Dict by (simp add: Cons.IH)
  qed simp_all
qed

lemma json_attempt_records:
  assumes "json_loads w content = Inr (List (map Dict rows))"
  shows "json_attempt w content =
     Inr (sorted_list_of_set (\<Union>row\<in>set rows. fst ` set row), rows)"
  using assms by (simp add: json_attempt_def update_cols_dicts rows_of_dicts)

lemma json_attempt_raises:
  assumes "json_loads w content = Inl e"
  shows "json_attempt w content = Inl e"
  using assms by (simp add: json_attempt_def)

lemma json_attempt_scalar:
  assumes "json_loads w content = Inr (Scalar v)" and "v \<noteq> PStr []"
  shows "json_attempt w content = Inl TypeError \<or> json_attempt w content = Inl AttributeError"
proof (cases v)
  case (PStr s)
  with assms(2) obtain c cs where "s = c # cs" by (cases s) auto
  with PStr assms(1) show ?thesis by (simp add: json_attempt_def)
qed (insert assms(1), simp_all add: json_attempt_def)

lemma json_attempt_object:
  assumes "json_loads w content = Inr (Dict d)" and "d \<noteq> []"
  shows "json_attempt w content = Inl AttributeError"
proof -
  from assms(2) obtain p ps where "d = p # ps" by (cases d) auto
  with assms(1) show ?thesis by (simp add: json_attempt_def split_def)
qed

lemma json_attempt_list:
  assumes "json_loads w content = Inr (List items)" and "\<exists>item\<in>set items. \<forall>d. item \<noteq> Dict d"
  shows "json_attempt w content = Inl AttributeError"
  using assms by (simp add: json_attempt_def update_cols_not_dict)

lemma json_attempt_empty:
  assumes "json_loads w content = Inr (Dict []) \<or> json_loads w content = Inr (Scalar (PStr []))"
  shows "json_attempt w content = Inr ([], [])"
  using assms by (auto simp: json_attempt_def)

lemma parse_content_fallback:
  "json_attempt w content = Inl e \<Longrightarrow> parse_content w content = csv_attempt w content"
  by (simp add: parse_content_def)

lemma parse_content_json:
  "json_attempt w content = Inr (cols, data) \<Longrightarrow> parse_content w content = Inr (Some cols, data)"
  by (simp add: parse_content_def)

text \<open>
  C2.  When the content parses as a JSON list whose elements are all objects,
  \<open>parse_data\<close> returns those objects as the rows, and as the columns the sorted list
  without repetitions of the union of their keys (strings compared character by
  character, a proper prefix first), whatever the order of the keys in the objects.  The
  witness is the input \<open>[{"b": 1, "a": 2}, {"c": 3}]\<close> with the columns \<open>a\<close>, \<open>b\<close>, \<open>c\<close>.
\<close>

theorem json_columns_sorted_union:
  assumes "read_source w source = Inr content"
    and "json_loads w content = Inr (List (map Dict rows))"
  shows "(\<exists>cols. parse_data w source = Inr (Some cols, rows)
            \<and> cols = sorted_list_of_set (\<Union>row\<in>set rows. set (map fst row))
            \<and> sorted cols \<and> distinct cols
            \<and> set cols = (\<Union>row\<in>set rows. set (map fst row)))"
  using assms
  by (simp add: parse_data_def parse_content_json [OF json_attempt_records])

theorem json_columns_sorted_union_witness:
  \<open>read_source
      (example_world ''[{"b": 1, "a": 2}, {"c": 3}]''
        (Inr (List (map Dict [[(''b'', PInt 1), (''a'', PInt 2)], [(''c'', PInt 3)]]))) []
        (Inl SqliteError)) ''-''
     = Inr ''[{"b": 1, "a": 2}, {"c": 3}]''
   \<and> json_loads
      (example_world ''[{"b": 1, "a": 2}, {"c": 3}]''
        (Inr (List (map Dict [[(''b'', PInt 1), (''a'', PInt 2)], [(''c'', PInt 3)]]))) []
        (Inl SqliteError)) ''[{"b": 1, "a": 2}, {"c": 3}]''
     = Inr (List (map Dict [[(''b'', PInt 1), (''a'', PInt 2)], [(''c'', PInt 3)]]))
   \<and> parse_data
      (example_world ''[{"b": 1, "a": 2}, {"c": 3}]''
        (Inr (List (map Dict [[(''b'', PInt 1), (''a'', PInt 2)], [(''c'', PInt 3)]]))) []
        (Inl SqliteError)) ''-''
     = Inr (Some [''a'', ''b'', ''c''], [[(''b'', PInt 1), (''a'', PInt 2)], [(''c'', PInt 3)]])\<close>
proof -
  let ?rows = "[[(''b'', PInt 1), (''a'', PInt 2)], [(''c'', PInt 3)]]"
  let ?text = \<open>''[{"b": 1, "a": 2}, {"c": 3}]''\<close>
  let ?w = "example_world ?text (Inr (List (map Dict ?rows))) [] (Inl SqliteError)"
  have input: "read_source ?w ''-'' = Inr ?text"
    by (simp add: read_source_def example_world_def)
  have parsed: "json_loads ?w ?text = Inr (List (map Dict ?rows))"
    by (simp add: example_world_def)
  have keys: "sorted_list_of_set (\<Union>row\<in>set ?rows. set (map fst row)) = [''a'', ''b'', ''c'']"
    by code_simp
  from json_columns_sorted_union [OF input parsed] keys
  have "parse_data ?w ''-'' = Inr (Some [''a'', ''b'', ''c''], ?rows)"
    by simp
  with input parsed show ?thesis by blast
qed

lemma parse_data_content:
  "read_source w source = Inr content \<Longrightarrow> parse_data w source = parse_content w content"
  by (simp add: parse_data_def)

lemma csv_attempt_raises: "csv_reader w content = Inl e \<Longrightarrow> csv_attempt w content = Inl e"
  by (simp add: csv_attempt_def)

section \<open>The fallback to delimited text\<close>

text \<open>
  C8 (as amended).  \<open>parse_data\<close> falls back to the CSV reader exactly when the JSON
  attempt raises, and then returns what the CSV attempt returns: when \<open>json.loads\<close> raises,
  when it returns a number, a boolean, \<open>null\<close> or a string that is not empty, an object
  that is not empty, or a list with an element that is not an object.  No exception of
  the JSON attempt leaves \<open>parse_data\<close>.  A list of objects is taken as the table; so are,
  without any fallback, the empty object \<open>{}\<close> and the empty string \<open>""\<close>, as tables
  without columns and rows.  Every other exception goes on: one of reading the input or
  of the CSV reader leaves \<open>parse_data\<close>, one of \<open>parse_data\<close> or of the query step ends
  \<open>main\<close>, and what \<open>print_table\<close> raises is what the run raises.
\<close>

theorem json_failure_falls_back:
  assumes "read_source w source = Inr content"
  shows "(\<forall>e. json_attempt w content = Inl e \<longrightarrow> parse_data w source = csv_attempt w content)
       \<and> (\<forall>cols data. json_attempt w content = Inr (cols, data) \<longrightarrow>
              parse_data w source = Inr (Some cols, data))
       \<and> (\<forall>e. json_loads w content = Inl e \<longrightarrow> parse_data w source = csv_attempt w content)
       \<and> (\<forall>v. json_loads w content = Inr (Scalar v) \<and> v \<noteq> PStr [] \<longrightarrow>
              parse_data w source = csv_attempt w content)
       \<and> (\<forall>d. json_loads w content = Inr (Dict d) \<and> d \<noteq> [] \<longrightarrow>
              parse_data w source = csv_attempt w content)
       \<and> (\<forall>items. json_loads w content = Inr (List items)
                \<and> (\<exists>item\<in>set items. \<forall>d. item \<noteq> Dict d) \<longrightarrow>
              parse_data w source = csv_attempt w content)
       \<and> (\<forall>rows. json_loads w content = Inr (List (map Dict rows)) \<longrightarrow>
              parse_data w source =
                Inr (Some (sorted_list_of_set (\<Union>row\<in>set rows. fst ` set row)), rows))
       \<and> (json_loads w content = Inr (Dict []) \<or> json_loads w content = Inr (Scalar (PStr [])) \<longrightarrow>
              parse_data w source = Inr (Some [], []))
       \<and> (\<forall>e e'. json_attempt w content = Inl e \<and> csv_reader w content = Inl e' \<longrightarrow>
              parse_data w source = Inl e')
       \<and> (\<forall>src e. read_source w src = Inl e \<longrightarrow> parse_data w src = Inl e)
       \<and> (\<forall>a e. parse_data w (arg_data_source a) = Inl e \<longrightarrow> raised (main w a) = Some e)
       \<and> (\<forall>a cols data q t e.
              arg_query a = Some q \<and> q \<noteq> []
              \<and> with_db w \<lparr>records = data, columns = cols, db = None\<rparr> q = (t, Inl e) \<longrightarrow>
              raised (query_step w a cols data) = Some e)
       \<and> (\<forall>a cs data conn.
              raised (render a (Some cs) data conn) =
                snd (print_table data (map (\<lambda>col. (col, col)) cs) (arg_max_cols a) '' | ''))"
proof -
  note content = parse_data_content [OF assms]
  have a: "parse_data w source = csv_attempt w content" if "json_loads w content = Inl e" for e
    unfolding content using json_attempt_raises [OF that] by (rule parse_content_fallback)
  have b: "parse_data w source = csv_attempt w content"
    if "json_loads w content = Inr (Scalar v)" "v \<noteq> PStr []" for v
    unfolding content using json_attempt_scalar [OF that] by (auto intro: parse_content_fallback)
  have c: "parse_data w source = csv_attempt w content"
    if "json_loads w content = Inr (Dict d)" "d \<noteq> []" for d
    unfolding content using json_attempt_object [OF that] by (rule parse_content_fallback)
  have d: "parse_data w source = csv_attempt w content"
    if "json_loads w content = Inr (List items)" "\<exists>item\<in>set items. \<forall>d. item \<noteq> Dict d" for items
    unfolding content using json_attempt_list [OF that] by (rule parse_content_fallback)
  have e: "parse_data w source =
      Inr (Some (sorted_list_of_set (\<Union>row\<in>set rows. fst ` set row)), rows)"
    if "json_loads w content = Inr (List (map Dict rows))" for rows
    unfolding content using json_attempt_records [OF that] by (rule parse_content_json)
  have f: "parse_data w source = Inr (Some [], [])"
    if "json_loads w content = Inr (Dict []) \<or> json_loads w content = Inr (Scalar (PStr []))"
    unfolding content using json_attempt_empty [OF that] by (rule parse_content_json)
  have g: "parse_data w source = Inl e'"
    if "json_attempt w content = Inl e" "csv_reader w content = Inl e'" for e e'
    unfolding content using that by (simp add: parse_content_fallback csv_attempt_raises)
  have h: "parse_data w src = Inl e" if "read_source w src = Inl e" for src e
    using that by (simp add: parse_data_def)
  have i: "raised (main w a) = Some e" if "parse_data w (arg_data_source a) = Inl e" for a e
    using that by (simp add: main_def)
  have j: "raised (query_step w a cols data) = Some e"
    if "arg_query a = Some q \<and> q \<noteq> []
        \<and> with_db w \<lparr>records = data, columns = cols, db = None\<rparr> q = (t, Inl e)"
    for a cols data q t e
    using that by (cases q) (simp_all add: query_step_def)
  have k: "raised (render a (Some cs) data conn) =
      snd (print_table data (map (\<lambda>col. (col, col)) cs) (arg_max_cols a) '' | '')"
    for a cs data conn
    by (simp add: render_def split_def)
  have raised: "parse_data w source = csv_attempt w content" if "json_attempt w content = Inl e" for e
    unfolding content using that by (rule parse_content_fallback)
  have passed: "parse_data w source = Inr (Some cols, data)"
    if "json_attempt w content = Inr (cols, data)" for cols data
    unfolding content using that by (rule parse_content_json)
  from raised passed have attempt:
    "(\<forall>e. json_attempt w content = Inl e \<longrightarrow> parse_data w source = csv_attempt w content)
     \<and> (\<forall>cols data. json_attempt w content = Inr (cols, data) \<longrightarrow>
            parse_data w source = Inr (Some cols, data))"
    by blast
  from a b c d e f g h i j k have others:
    "(\<forall>e. json_loads w content = Inl e \<longrightarrow> parse_data w source = csv_attempt w content)
       \<and> (\<forall>v. json_loads w content = Inr (Scalar v) \<and> v \<noteq> PStr [] \<longrightarrow>
              parse_data w source = csv_attempt w content)
       \<and> (\<forall>d. json_loads w content = Inr (Dict d) \<and> d \<noteq> [] \<longrightarrow>
              parse_data w source = csv_attempt w content)
       \<and> (\<forall>items. json_loads w content = Inr (List items)
                \<and> (\<exists>item\<in>set items. \<forall>d. item \<noteq> Dict d) \<longrightarrow>
              parse_data w source = csv_attempt w content)
       \<and> (\<forall>rows. json_loads w content = Inr (List (map Dict rows)) \<longrightarrow>
              parse_data w source =
                Inr (Some (sorted_list_of_set (\<Union>row\<in>set rows. fst ` set row)), rows))
       \<and> (json_loads w content = Inr (Dict []) \<or> json_loads w content = Inr (Scalar (PStr [])) \<longrightarrow>
              parse_data w source = Inr (Some [], []))
       \<and> (\<forall>e e'. json_attempt w content = Inl e \<and> csv_reader w content = Inl e' \<longrightarrow>
              parse_data w source = Inl e')
       \<and> (\<forall>src e. read_source w src = Inl e \<longrightarrow> parse_data w src = Inl e)
       \<and> (\<forall>a e. parse_data w (arg_data_source a) = Inl e \<longrightarrow> raised (main w a) = Some e)
       \<and> (\<forall>a cols data q t e.
              arg_query a = Some q \<and> q \<noteq> []
              \<and> with_db w \<lparr>records = data, columns = cols, db = None\<rparr> q = (t, Inl e) \<longrightarrow>
              raised (query_step w a cols data) = Some e)
       \<and> (\<forall>a cs data conn.
              raised (render a (Some cs) data conn) =
                snd (print_table data (map (\<lambda>col. (col, col)) cs) (arg_max_cols a) '' | ''))"
    by blast
  show ?thesis
    by (rule conjI [OF attempt [THEN conjunct1] conjI [OF attempt [THEN conjunct2] others]])
qed

theorem json_failure_falls_back_witness:
  "read_source (example_world ''id, name'' (Inl JSONDecodeError) [[''id'', ''name'']] (Inl SqliteError)) ''-''
     = Inr ''id, name''
   \<and> json_loads (example_world ''id, name'' (Inl JSONDecodeError) [[''id'', ''name'']] (Inl SqliteError))
       ''id, name'' = Inl JSONDecodeError
   \<and> parse_data (example_world ''id, name'' (Inl JSONDecodeError) [[''id'', ''name'']] (Inl SqliteError)) ''-''
     = Inr (Some [''id'', ''name''], [])"
proof -
  let ?w = "example_world ''id, name'' (Inl JSONDecodeError) [[''id'', ''name'']] (Inl SqliteError)"
  have input: "read_source ?w ''-'' = Inr ''id, name''"
    by (simp add: read_source_def example_world_def)
  have fails: "json_loads ?w ''id, name'' = Inl JSONDecodeError"
    by (simp add: example_world_def)
  have csv: "csv_attempt ?w ''id, name'' = Inr (Some [''id'', ''name''], [])"
    by (simp add: csv_attempt_def example_world_def)
  from json_failure_falls_back [OF input, THEN conjunct2, THEN conjunct2, THEN conjunct1] fails
  have "parse_data ?w ''-'' = csv_attempt ?w ''id, name''"
    by blast
  with input fails csv show ?thesis by simp
qed

text \<open>
  C8 as stated fails for the input \<open>{}\<close>: it is valid JSON and not a sequence of records,
  yet \<open>parse_data\<close> returns the empty table of the JSON attempt, not what the CSV attempt
  gives for this text (the one column \<open>{}\<close>).
\<close>

theorem empty_object_not_fallback_counterexample:
  "json_loads (example_world ''{}'' (Inr (Dict [])) [[''{}'']] (Inl SqliteError)) ''{}'' = Inr (Dict [])
   \<and> parse_data (example_world ''{}'' (Inr (Dict [])) [[''{}'']] (Inl SqliteError)) ''-''
       = Inr (Some [], [])
   \<and> csv_attempt (example_world ''{}'' (Inr (Dict [])) [[''{}'']] (Inl SqliteError)) ''{}''
       = Inr (Some [''{}''], [])
   \<and> parse_data (example_world ''{}'' (Inr (Dict [])) [[''{}'']] (Inl SqliteError)) ''-''
       \<noteq> csv_attempt (example_world ''{}'' (Inr (Dict [])) [[''{}'']] (Inl SqliteError)) ''{}''"
  by (simp add: parse_data_def parse_content_def json_attempt_def csv_attempt_def read_source_def
      example_world_def)

section \<open>The empty input\<close>

text \<open>
  C3.  For the empty input the JSON attempt raises and the CSV attempt finds no record:
  \<open>parse_data\<close> returns no rows and, for the columns, \<open>None\<close> rather than an empty list.
  Without \<open>--only-columns\<close> and without a query, \<open>main\<close> then raises \<open>TypeError\<close> in the
  comprehension over the columns and prints nothing, although \<open>print_table\<close> itself
  renders the table without columns and rows as two empty lines.
\<close>

theorem main_empty_input_type_error:
  assumes "stdin_read w = Inr ''''"
    and "json_loads w '''' = Inl e"
    and "csv_reader w '''' = Inr []"
    and "arg_data_source a = ''-''"
    and "arg_only_columns a = None"
    and "arg_query a = None"
  shows "parse_data w ''-'' = Inr (None, [])
       \<and> main w a = \<lparr>stdout = [], raised = Some TypeError, store = None\<rparr>
       \<and> print_table [] [] (arg_max_cols a) '' | '' = (['''', ''''], None)"
proof -
  have parsed: "parse_data w ''-'' = Inr (None, [])"
    using assms(1-3)
    by (simp add: parse_data_def read_source_def parse_content_def json_attempt_def csv_attempt_def)
  then have "main w a = \<lparr>stdout = [], raised = Some TypeError, store = None\<rparr>"
    using assms(4-6) by (simp add: main_def choose_columns_def query_step_def render_def)
  moreover have "print_table [] [] (arg_max_cols a) '' | '' = (['''', ''''], None)"
    by (simp add: print_table_rendered header_line_def rule_width_sum str_times_def py_dict_def
        len_def)
  ultimately show ?thesis using parsed by simp
qed

theorem main_empty_input_type_error_witness:
  "stdin_read (example_world '''' (Inl JSONDecodeError) [] (Inl SqliteError)) = Inr ''''
   \<and> main (example_world '''' (Inl JSONDecodeError) [] (Inl SqliteError)) (example_args None None)
       = \<lparr>stdout = [], raised = Some TypeError, store = None\<rparr>"
proof -
  let ?w = "example_world '''' (Inl JSONDecodeError) [] (Inl SqliteError)"
  have 1: "stdin_read ?w = Inr ''''" by (simp add: example_world_def)
  have 2: "json_loads ?w '''' = Inl JSONDecodeError" by (simp add: example_world_def)
  have 3: "csv_reader ?w '''' = Inr []" by (simp add: example_world_def)
  have 4: "arg_data_source (example_args None None) = ''-''" by (simp add: example_args_def)
  have 5: "arg_only_columns (example_args None None) = None" by (simp add: example_args_def)
  have 6: "arg_query (example_args None None) = None" by (simp add: example_args_def)
  from main_empty_input_type_error [OF 1 2 3 4 5 6] 1 show ?thesis by simp
qed

section \<open>The option \<open>--only-columns\<close>\<close>

text \<open>
  C7 (as amended).  When \<open>--only-columns\<close> is given with at least one name, the supplied
  list replaces the detected columns before the query step and the rendering, and the
  rows go on unchanged: without a query \<open>print_table\<close> gets the parsed rows and the
  supplied names, with a query the \<open>TempDB\<close> is made of the parsed rows and the supplied
  names.  When the option is absent or given without a name, the detected columns are
  kept.
\<close>

theorem only_columns_replace:
  assumes "parse_data w (arg_data_source a) = Inr (cols, data)"
  shows "(\<forall>c cs. arg_only_columns a = Some (c # cs) \<longrightarrow>
            choose_columns a cols = Some (c # cs)
          \<and> main w a = query_step w a (Some (c # cs)) data
          \<and> (arg_query a = None \<or> arg_query a = Some [] \<longrightarrow>
               main w a = render a (Some (c # cs)) data None
             \<and> (stdout (main w a), raised (main w a)) =
                 print_table data (map (\<lambda>col. (col, col)) (c # cs)) (arg_max_cols a) '' | '')
          \<and> (\<forall>q qs. arg_query a = Some (q # qs) \<longrightarrow>
               store (main w a) =
                 db (fst (with_db w \<lparr>records = data, columns = Some (c # cs), db = None\<rparr> (q # qs)))))
       \<and> (arg_only_columns a = None \<or> arg_only_columns a = Some [] \<longrightarrow>
            choose_columns a cols = cols \<and> main w a = query_step w a cols data)"
proof -
  have replaced: "choose_columns a cols = Some (c # cs)"
    if "arg_only_columns a = Some (c # cs)" for c cs
    using that by (simp add: choose_columns_def)
  have kept: "choose_columns a cols = cols"
    if "arg_only_columns a = None \<or> arg_only_columns a = Some []"
    using that by (auto simp: choose_columns_def)
  have run: "main w a = query_step w a (choose_columns a cols) data"
    using assms by (simp add: main_def)
  have plain: "query_step w a cols' data = render a cols' data None"
    if "arg_query a = None \<or> arg_query a = Some []" for cols'
    using that by (auto simp: query_step_def)
  have shown: "(stdout (render a (Some cs') data None), raised (render a (Some cs') data None)) =
      print_table data (map (\<lambda>col. (col, col)) cs') (arg_max_cols a) '' | ''" for cs'
    by (simp add: render_def split_def)
  have queried: "store (query_step w a cols' data) =
      db (fst (with_db w \<lparr>records = data, columns = cols', db = None\<rparr> (q # qs)))"
    if "arg_query a = Some (q # qs)" for cols' q qs
    using that by (simp add: query_step_def render_def split: prod.splits sum.splits)
  have with_names: "choose_columns a cols = Some (c # cs)
          \<and> main w a = query_step w a (Some (c # cs)) data
          \<and> (arg_query a = None \<or> arg_query a = Some [] \<longrightarrow>
               main w a = render a (Some (c # cs)) data None
             \<and> (stdout (main w a), raised (main w a)) =
                 print_table data (map (\<lambda>col. (col, col)) (c # cs)) (arg_max_cols a) '' | '')
          \<and> (\<forall>q qs. arg_query a = Some (q # qs) \<longrightarrow>
               store (main w a) =
                 db (fst (with_db w \<lparr>records = data, columns = Some (c # cs), db = None\<rparr> (q # qs))))"
    if given: "arg_only_columns a = Some (c # cs)" for c cs
  proof -
    have m: "main w a = query_step w a (Some (c # cs)) data"
      using run replaced [OF given] by simp
    have p: "main w a = render a (Some (c # cs)) data None
             \<and> (stdout (main w a), raised (main w a)) =
                 print_table data (map (\<lambda>col. (col, col)) (c # cs)) (arg_max_cols a) '' | ''"
      if "arg_query a = None \<or> arg_query a = Some []"
      unfolding m plain [OF that] using shown by simp
    have q: "store (main w a) =
        db (fst (with_db w \<lparr>records = data, columns = Some (c # cs), db = None\<rparr> (q # qs)))"
      if "arg_query a = Some (q # qs)" for q qs
      unfolding m using that by (rule queried)
    from replaced [OF given] m p q show ?thesis by blast
  qed
  have without: "choose_columns a cols = cols \<and> main w a = query_step w a cols data"
    if "arg_only_columns a = None \<or> arg_only_columns a = Some []"
    using run kept [OF that] by simp
  from with_names without show ?thesis by blast
qed

theorem only_columns_replace_witness:
  \<open>parse_data
      (example_world ''[{"a": "1", "b": "2"}]''
        (Inr (List [Dict [(''a'', PStr ''1''), (''b'', PStr ''2'')]])) [] (Inl SqliteError))
      (arg_data_source (example_args (Some [''b'']) None))
     = Inr (Some [''a'', ''b''], [[(''a'', PStr ''1''), (''b'', PStr ''2'')]])
   \<and> choose_columns (example_args (Some [''b'']) None) (Some [''a'', ''b'']) = Some [''b'']
   \<and> main
      (example_world ''[{"a": "1", "b": "2"}]''
        (Inr (List [Dict [(''a'', PStr ''1''), (''b'', PStr ''2'')]])) [] (Inl SqliteError))
      (example_args (Some [''b'']) None)
     = \<lparr>stdout = [''b'', ''-'', ''2''], raised = None, store = None\<rparr>\<close>
proof -
  let ?w = \<open>example_world ''[{"a": "1", "b": "2"}]''
        (Inr (List [Dict [(''a'', PStr ''1''), (''b'', PStr ''2'')]])) [] (Inl SqliteError)\<close>
  let ?a = "example_args (Some [''b'']) None"
  let ?rows = "[[(''a'', PStr ''1''), (''b'', PStr ''2'')]]"
  have parsed: "parse_data ?w (arg_data_source ?a) = Inr (Some [''a'', ''b''], ?rows)"
    by code_simp
  have given: "arg_only_columns ?a = Some [''b'']"
    by (simp add: example_args_def)
  have none: "arg_query ?a = None"
    by (simp add: example_args_def)
  have printed: "render ?a (Some [''b'']) ?rows None
      = \<lparr>stdout = [''b'', ''-'', ''2''], raised = None, store = None\<rparr>"
    by code_simp
  from only_columns_replace [OF parsed] given none
  have "choose_columns ?a (Some [''a'', ''b'']) = Some [''b'']
      \<and> main ?w ?a = render ?a (Some [''b'']) ?rows None"
    by blast
  with parsed printed show ?thesis by simp
qed

text \<open>
  C7 as stated fails for \<open>--only-columns\<close> given without a name: the list is empty, the
  test \<open>if args.only_columns\<close> fails, and the detected column \<open>a\<close> is rendered; with the
  columns replaced by the empty list the output would be three empty lines.
\<close>

theorem only_columns_no_names_counterexample:
  \<open>arg_only_columns (example_args (Some []) None) = Some []
   \<and> parse_data
      (example_world ''[{"a": "1"}]'' (Inr (List [Dict [(''a'', PStr ''1'')]])) [] (Inl SqliteError))
      ''-''
     = Inr (Some [''a''], [[(''a'', PStr ''1'')]])
   \<and> choose_columns (example_args (Some []) None) (Some [''a'']) \<noteq> Some []
   \<and> stdout (main
      (example_world ''[{"a": "1"}]'' (Inr (List [Dict [(''a'', PStr ''1'')]])) [] (Inl SqliteError))
      (example_args (Some []) None))
     = [''a'', ''-'', ''1'']
   \<and> stdout (render (example_args (Some []) None) (Some []) [[(''a'', PStr ''1'')]] None)
     = ['''', '''', '''']\<close>
proof -
  have 1: "arg_only_columns (example_args (Some []) None) = Some []"
    by (simp add: example_args_def)
  have 2: \<open>parse_data
      (example_world ''[{"a": "1"}]'' (Inr (List [Dict [(''a'', PStr ''1'')]])) [] (Inl SqliteError))
      ''-''
     = Inr (Some [''a''], [[(''a'', PStr ''1'')]])\<close>
    by code_simp
  have 3: "choose_columns (example_args (Some []) None) (Some [''a'']) \<noteq> Some []"
    by (simp add: choose_columns_def example_args_def)
  have 4: \<open>stdout (main
      (example_world ''[{"a": "1"}]'' (Inr (List [Dict [(''a'', PStr ''1'')]])) [] (Inl SqliteError))
      (example_args (Some []) None))
     = [''a'', ''-'', ''1'']\<close>
    by code_simp
  have 5: "stdout (render (example_args (Some []) None) (Some []) [[(''a'', PStr ''1'')]] None)
     = ['''', '''', '''']"
    by code_simp
  from 1 2 3 4 5 show ?thesis by blast
qed

section \<open>The scope of the store\<close>

lemma connected_ran: "connected t \<Longrightarrow> connected (ran ops t)"
  by (auto simp: connected_def ran_def conn_of_def)

lemma connected_make_table: "connected t \<Longrightarrow> connected (fst (make_table w t))"
  by (auto simp: make_table_def Let_def connected_ran split: option.splits sum.splits)

lemma connected_insert_data: "connected t \<Longrightarrow> connected (fst (insert_data w t))"
  by (auto simp: insert_data_def Let_def connected_ran split: option.splits)

lemma connected_enter: "connected (fst (enter w t))"
proof -
  have "connected (t\<lparr>db := Some \<lparr>history = [], closed = False\<rparr>\<rparr>)"
    by (simp add: connected_def)
  then have c: "connected (fst (make_table w (t\<lparr>db := Some \<lparr>history = [], closed = False\<rparr>\<rparr>)))"
    by (rule connected_make_table)
  show ?thesis
  proof (cases "make_table w (t\<lparr>db := Some \<lparr>history = [], closed = False\<rparr>\<rparr>)")
    case (Pair t1 r)
    with c have "connected t1" by simp
    with Pair show ?thesis
      by (cases r) (simp_all add: enter_def Let_def connected_insert_data)
  qed
qed

lemma exit_db_closed: "map_option closed (db (exit_db t)) = Some True"
  by (simp add: exit_db_def)

lemma enter_no_columns:
  assumes "sql_execute w [] (create_table_statement []) = Inl e"
  shows "enter w \<lparr>records = data, columns = Some [], db = None\<rparr> =
     (\<lparr>records = data, columns = Some [], db = Some \<lparr>history = [], closed = False\<rparr>\<rparr>, Some e)"
  using assms by (simp add: enter_def make_table_def conn_of_def Let_def)

text \<open>
  C9.  \<open>__exit__\<close>, which closes the connection, runs only when \<open>__enter__\<close> has returned.
  When \<open>__enter__\<close> raises, in creating the table or in inserting the records, the
  exception leaves the \<open>with\<close> statement with the connection open; when it returns, the
  connection is closed at the end of the query, raised or not.  A run on an input without
  columns and with a query ends so: the engine refuses the table, the run raises the
  engine's error and the connection is left open.
\<close>

theorem store_left_open_when_enter_raises:
  "(\<forall>t1 e. enter w t = (t1, Some e) \<longrightarrow>
       with_db w t q = (t1, Inl e) \<and> map_option closed (db t1) = Some False)
   \<and> (\<forall>t1. enter w t = (t1, None) \<longrightarrow>
       map_option closed (db (fst (with_db w t q))) = Some True)
   \<and> (\<forall>a data c cs e.
        parse_data w (arg_data_source a) = Inr (Some [], data)
        \<and> arg_only_columns a = None \<and> arg_query a = Some (c # cs)
        \<and> sql_execute w [] (create_table_statement []) = Inl e \<longrightarrow>
        main w a = \<lparr>stdout = [], raised = Some e,
                     store = Some \<lparr>history = [], closed = False\<rparr>\<rparr>)"
proof -
  have failed: "with_db w t q = (t1, Inl e) \<and> map_option closed (db t1) = Some False"
    if "enter w t = (t1, Some e)" for t1 e
  proof -
    from connected_enter [of w t] that have "map_option closed (db t1) = Some False"
      by (simp add: connected_def)
    with that show ?thesis by (simp add: with_db_def)
  qed
  have entered: "map_option closed (db (fst (with_db w t q))) = Some True"
    if "enter w t = (t1, None)" for t1
    using that by (auto simp: with_db_def exit_db_def split: prod.splits)
  have run: "main w a = \<lparr>stdout = [], raised = Some e,
                     store = Some \<lparr>history = [], closed = False\<rparr>\<rparr>"
    if "parse_data w (arg_data_source a) = Inr (Some [], data)
        \<and> arg_only_columns a = None \<and> arg_query a = Some (c # cs)
        \<and> sql_execute w [] (create_table_statement []) = Inl e" for a data c cs e
  proof -
    from that have "enter w \<lparr>records = data, columns = Some [], db = None\<rparr> =
        (\<lparr>records = data, columns = Some [], db = Some \<lparr>history = [], closed = False\<rparr>\<rparr>, Some e)"
      by (simp add: enter_no_columns)
    with that show ?thesis
      by (simp add: main_def choose_columns_def query_step_def with_db_def)
  qed
  from failed entered run show ?thesis by blast
qed

theorem store_left_open_when_enter_raises_witness:
  "parse_data (example_world ''[]'' (Inr (List [])) [[''[]'']] (Inr (Some [''1''], [[PInt 1]])))
       (arg_data_source (example_args None (Some ''select 1'')))
     = Inr (Some [], [])
   \<and> sql_execute (example_world ''[]'' (Inr (List [])) [[''[]'']] (Inr (Some [''1''], [[PInt 1]])))
       [] (create_table_statement []) = Inl SqliteError
   \<and> main (example_world ''[]'' (Inr (List [])) [[''[]'']] (Inr (Some [''1''], [[PInt 1]])))
       (example_args None (Some ''select 1''))
     = \<lparr>stdout = [], raised = Some SqliteError,
        store = Some \<lparr>history = [], closed = False\<rparr>\<rparr>"
proof -
  let ?w = "example_world ''[]'' (Inr (List [])) [[''[]'']] (Inr (Some [''1''], [[PInt 1]]))"
  let ?a = "example_args None (Some ''select 1'')"
  have parsed: "parse_data ?w (arg_data_source ?a) = Inr (Some [], [])"
    by code_simp
  have refused: "sql_execute ?w [] (create_table_statement []) = Inl SqliteError"
    by (simp add: example_world_def)
  have only: "arg_only_columns ?a = None"
    by (simp add: example_args_def)
  have q: "arg_query ?a = Some (CHR ''s'' # ''elect 1'')"
    by (simp add: example_args_def)
  from store_left_open_when_enter_raises [of ?w, THEN conjunct2, THEN conjunct2] parsed refused only q
  have "main ?w ?a = \<lparr>stdout = [], raised = Some SqliteError,
        store = Some \<lparr>history = [], closed = False\<rparr>\<rparr>"
    by blast
  with parsed refused show ?thesis by blast
qed

end
